theory Spec2Isabelle
  imports Complex_Main "HOL-Library.AList" "HOL-Library.Sublist"
begin

section \<open>Data\<close>

subsection \<open>JSON documents\<close>

text \<open>
  A Python \<^verbatim>\<open>str\<close> is the list of the bytes of its UTF-8 encoding: an ASCII character is
  one byte below 128, any other character is several bytes from 128 on, and the byte of
  \<open>/\<close> stands for that character only.
\<close>

text \<open>
  What \<^verbatim>\<open>json.load\<close> returns: \<^verbatim>\<open>None\<close>, a bool, an int, a float, a str, a list or a
  dict. A dict keeps its keys in insertion order, so it is an association list.
  Floats are only passed through by the tool, never computed with.
\<close>

datatype json =
    JNull
  | JBool bool
  | JInt int
  | JFloat real
  | JStr string
  | JList "json list"
  | JObj "(string \<times> json) list"

subsection \<open>Exceptions\<close>

text \<open>
  The classes the tool's \<^verbatim>\<open>except\<close> clauses tell apart, each with the text of
  \<^verbatim>\<open>str(err)\<close>. Every constructor is a subclass of \<^verbatim>\<open>Exception\<close>; \<^verbatim>\<open>KeyboardInterrupt\<close>
  and \<^verbatim>\<open>SystemExit\<close> are outside the model.
\<close>

datatype exn =
    ConnectionError string
  | HTTPError string
  | ValidationError string
  | KeyError string
  | TypeError string
  | OtherError string

fun str_exn :: "exn \<Rightarrow> string" where
  "str_exn (ConnectionError m) = m"
| "str_exn (HTTPError m) = m"
| "str_exn (ValidationError m) = m"
| "str_exn (KeyError k) = [CHR 0x27] @ k @ [CHR 0x27]"
| "str_exn (TypeError m) = m"
| "str_exn (OtherError m) = m"

subsection \<open>The outside world\<close>

text \<open>
  Every interaction with the terminal, the schema service, the object store and the
  broker, as the call the tool issues. The trace lists the calls in the order they are
  issued, whether or not they raise. The body of a published message is \<open>Dumps j\<close>, the
  text that \<^verbatim>\<open>json.dumps\<close> makes of the document \<open>j\<close>; the serialisation itself is the
  library's and is not unfolded.
\<close>

datatype payload = Dumps json

datatype effect =
    Echo string
  | HttpGet string
  | MinioClient string string string
  | BucketExists string
  | MakeBucket string
  | PutObject string string nat
  | BrokerConnect string string string string
  | Channel
  | QueueDeclare string bool
  | BasicPublish string string payload nat
  | ConnectionClose

fun is_storage :: "effect \<Rightarrow> bool" where
  "is_storage (MinioClient _ _ _) = True"
| "is_storage (BucketExists _) = True"
| "is_storage (MakeBucket _) = True"
| "is_storage (PutObject _ _ _) = True"
| "is_storage _ = False"

fun is_broker :: "effect \<Rightarrow> bool" where
  "is_broker (BrokerConnect _ _ _ _) = True"
| "is_broker Channel = True"
| "is_broker (QueueDeclare _ _) = True"
| "is_broker (BasicPublish _ _ _ _) = True"
| "is_broker ConnectionClose = True"
| "is_broker _ = False"

fun is_publish :: "effect \<Rightarrow> bool" where
  "is_publish (BasicPublish _ _ _ _) = True"
| "is_publish _ = False"

text \<open>
  The object store holds buckets and objects (bucket, key, declared length); only a
  call that returns changes it. The tool has no call that removes either.
\<close>

record world =
  buckets :: "string list"
  objects :: "(string \<times> string \<times> nat) list"
  trace :: "effect list"

text \<open>
  A directory tree as a walk sees it: a regular file with its size in bytes, a
  directory with its named entries, or anything else (a socket, a dangling link).
\<close>

datatype fsnode = RegFile nat | Directory "(string \<times> fsnode) list" | Other

text \<open>What \<^verbatim>\<open>requests.get\<close> returns: the status code, and what \<^verbatim>\<open>res.json()\<close> gives.\<close>

record response =
  status_code :: nat
  json_body :: "exn + json"

text \<open>
  The command-line parameters of \<^verbatim>\<open>upload_dataset\<close> and everything the run reads from
  outside: the \<^verbatim>\<open>API\<close> global, the file system, the answers of the libraries. \<open>raises\<close>
  says whether a call to the store or the broker raises in the current world; it is
  arbitrary, so any call may fail at any point of a run. \<open>open_rb\<close> gives the length
  that \<^verbatim>\<open>os.fstat\<close> reports for a file opened for reading, \<open>walk\<close> the tree that
  \<^verbatim>\<open>Path(path).glob\<close> goes through, each or the exception raised instead. \<open>list_of_set\<close>
  is \<^verbatim>\<open>list(img_format)\<close> as a function of the values added to the set: which of them
  are equal and in what order a set lists them is Python's business. \<open>unicode_lower\<close>
  is \<^verbatim>\<open>str.lower()\<close> on a string that is not all ASCII, where the result follows the
  Unicode case tables. Paths are POSIX paths, as the tool's own split on \<open>/\<close> takes them
  to be.
\<close>

record args =
  dir_path :: string
  metadatafile :: string
  dataclass :: string
  bucket :: string
  endpoint :: string
  access_key :: string
  secret_key :: string
  queue :: string
  host :: string
  port :: string
  username :: string
  password :: string

record env =
  API :: string
  path_exists :: "string \<Rightarrow> bool"
  json_load :: "string \<Rightarrow> exn + json"
  requests_get :: "string \<Rightarrow> exn + response"
  validate :: "json \<Rightarrow> json \<Rightarrow> exn option"
  raises :: "world \<Rightarrow> effect \<Rightarrow> exn option"
  open_rb :: "string \<Rightarrow> exn + nat"
  walk :: "string \<Rightarrow> exn + fsnode"
  today :: string
  list_of_set :: "json list \<Rightarrow> json list"
  unicode_lower :: "string \<Rightarrow> string"

datatype outcome = Returned | Propagated exn

record result =
  outcome :: outcome
  announced :: "json option"
  final :: world

section \<open>Library functions the tool calls\<close>

text \<open>\<^verbatim>\<open>os.path.join(a, b)\<close> of \<^verbatim>\<open>posixpath\<close>, for two strings.\<close>

definition path_join :: "string \<Rightarrow> string \<Rightarrow> string" where
  "path_join a b =
     (if b \<noteq> [] \<and> hd b = CHR ''/'' then b
      else if a = [] \<or> last a = CHR ''/'' then a @ b
      else a @ ''/'' @ b)"

text \<open>\<^verbatim>\<open>s.split(sep)\<close> for a one-character separator: never an empty list.\<close>

fun str_split :: "string \<Rightarrow> char \<Rightarrow> string list" where
  "str_split [] sep = [ [] ]"
| "str_split (c # cs) sep =
     (if c = sep then [] # str_split cs sep
      else (case str_split cs sep of [] \<Rightarrow> [ [c] ] | w # ws \<Rightarrow> (c # w) # ws))"

text \<open>
  \<^verbatim>\<open>s.lower()\<close>. A character below 128 is an ASCII character; on a string of such
  characters only, the letters A to Z change and nothing else does. On any other string
  the result is the one of the Unicode case tables, \<open>L s\<close>, which the model takes from
  outside as it is.
\<close>

definition lower_char :: "char \<Rightarrow> char" where
  "lower_char c =
     (case map_of (zip ''ABCDEFGHIJKLMNOPQRSTUVWXYZ'' ''abcdefghijklmnopqrstuvwxyz'') c of
        Some l \<Rightarrow> l
      | None \<Rightarrow> c)"

definition is_ascii :: "string \<Rightarrow> bool" where
  "is_ascii s = list_all (\<lambda>c. of_char c < (128::nat)) s"

definition str_lower :: "(string \<Rightarrow> string) \<Rightarrow> string \<Rightarrow> string" where
  "str_lower L s = (if is_ascii s then map lower_char s else L s)"

text \<open>
  \<^verbatim>\<open>Response.raise_for_status()\<close> of \<^verbatim>\<open>requests\<close>: an \<^verbatim>\<open>HTTPError\<close> for a client error
  (400 to 499) or a server error (500 to 599), nothing for any other status.
\<close>

definition raise_for_status :: "response \<Rightarrow> exn option" where
  "raise_for_status r =
     (if 400 \<le> status_code r \<and> status_code r < 500 then Some (HTTPError ''Client Error'')
      else if 500 \<le> status_code r \<and> status_code r < 600 then Some (HTTPError ''Server Error'')
      else None)"

text \<open>\<^verbatim>\<open>obj[key]\<close> and \<^verbatim>\<open>obj[key] = v\<close> for a str key: only a dict accepts one.\<close>

fun getitem :: "json \<Rightarrow> string \<Rightarrow> exn + json" where
  "getitem (JObj kvs) k = (case map_of kvs k of Some v \<Rightarrow> Inr v | None \<Rightarrow> Inl (KeyError k))"
| "getitem _ k = Inl (TypeError ''indices must be integers'')"

fun setitem :: "json \<Rightarrow> string \<Rightarrow> json \<Rightarrow> exn + json" where
  "setitem (JObj kvs) k v = Inr (JObj (AList.update k v kvs))"
| "setitem _ k v = Inl (TypeError ''object does not support item assignment'')"

fun join_json :: "string \<Rightarrow> json \<Rightarrow> exn + string" where
  "join_json d (JStr p) = Inr (path_join d p)"
| "join_json d _ = Inl (TypeError ''expected str, bytes or os.PathLike object'')"

fun hashable :: "json \<Rightarrow> bool" where
  "hashable (JList _) = False"
| "hashable (JObj _) = False"
| "hashable _ = True"

text \<open>
  The characters of a string, each with the bytes of its encoding: a byte from 128 to
  191 continues the character begun before it.
\<close>

definition is_continuation :: "char \<Rightarrow> bool" where
  "is_continuation c = (128 \<le> (of_char c :: nat) \<and> (of_char c :: nat) < 192)"

function characters :: "string \<Rightarrow> string list" where
  "characters [] = []"
| "characters (c # cs) =
     (c # takeWhile is_continuation cs) # characters (dropWhile is_continuation cs)"
  by pat_completeness auto
termination
  by (relation "measure length") (auto simp: length_dropWhile_le less_Suc_eq_le)

text \<open>
  What a \<^verbatim>\<open>for\<close> loop over a loaded document visits: the elements of a list, the keys of
  a dict, the characters of a string.
\<close>

fun iterate :: "json \<Rightarrow> exn + json list" where
  "iterate (JList xs) = Inr xs"
| "iterate (JObj kvs) = Inr (map (\<lambda>kv. JStr (fst kv)) kvs)"
| "iterate (JStr s) = Inr (map JStr (characters s))"
| "iterate _ = Inl (TypeError ''object is not iterable'')"

section \<open>The tool\<close>

subsection \<open>\<^verbatim>\<open>get_dataset_size\<close>\<close>

text \<open>
  \<^verbatim>\<open>root_directory.glob('**/*')\<close> yields every entry below the root, at any depth, and
  not the root itself. \<open>RegFile n\<close> is an entry for which \<^verbatim>\<open>is_file()\<close> holds, with
  \<^verbatim>\<open>stat().st_size\<close> equal to \<open>n\<close>.
\<close>

fun glob_all :: "fsnode \<Rightarrow> fsnode list" where
  "glob_all (Directory es) = concat (map (\<lambda>c. c # glob_all c) (map snd es))"
| "glob_all _ = []"

fun is_file :: "fsnode \<Rightarrow> bool" where
  "is_file (RegFile _) = True"
| "is_file _ = False"

fun st_size :: "fsnode \<Rightarrow> nat" where
  "st_size (RegFile n) = n"
| "st_size _ = 0"

definition get_dataset_size :: "fsnode \<Rightarrow> nat" where
  "get_dataset_size tree = sum_list (map st_size (filter is_file (glob_all tree)))"

text \<open>
  The same total, said as the claim says it: by recursion over the directory tree,
  each regular file counting its bytes and everything else nothing of its own.
\<close>

fun tree_bytes :: "fsnode \<Rightarrow> nat" where
  "tree_bytes (RegFile n) = n"
| "tree_bytes (Directory es) = sum_list (map tree_bytes (map snd es))"
| "tree_bytes Other = 0"

definition regular_file_bytes :: "fsnode \<Rightarrow> nat" where
  "regular_file_bytes tree = (case tree of Directory es \<Rightarrow> tree_bytes tree | _ \<Rightarrow> 0)"

subsection \<open>\<^verbatim>\<open>upload_dataset\<close>\<close>

definition emit :: "effect \<Rightarrow> world \<Rightarrow> world" where
  "emit c w = w\<lparr>trace := trace w @ [c]\<rparr>"

text \<open>Issue one call: it is recorded, and the environment says whether it raises.\<close>

definition perform :: "env \<Rightarrow> effect \<Rightarrow> world \<Rightarrow> exn option \<times> world" where
  "perform E c w = ((case c of Echo _ \<Rightarrow> None | _ \<Rightarrow> raises E w c), emit c w)"

text \<open>Consecutive statements of one \<^verbatim>\<open>try\<close> block: the first that raises ends it.\<close>

fun perform_all :: "env \<Rightarrow> effect list \<Rightarrow> world \<Rightarrow> exn option \<times> world" where
  "perform_all E [] w = (None, w)"
| "perform_all E (c # cs) w =
     (case perform E c w of
        (Some e, w') \<Rightarrow> (Some e, w')
      | (None, w') \<Rightarrow> perform_all E cs w')"

text \<open>Lines 62 to 64: the GET and the status check, inside one \<^verbatim>\<open>try\<close>.\<close>

definition fetch :: "env \<Rightarrow> string \<Rightarrow> exn + response" where
  "fetch E url =
     (case requests_get E url of
        Inl e \<Rightarrow> Inl e
      | Inr res \<Rightarrow> (case raise_for_status res of Some e \<Rightarrow> Inl e | None \<Rightarrow> Inr res))"

text \<open>
  Lines 57 to 77: load the metadata, fetch the schema, validate. \<open>Inl\<close> ends the run,
  by a plain \<^verbatim>\<open>return\<close> or by an exception no clause catches.
\<close>

definition load_and_validate :: "env \<Rightarrow> args \<Rightarrow> world \<Rightarrow> (outcome + json) \<times> world" where
  "load_and_validate E A w =
     (let mf = path_join (dir_path A) (metadatafile A) in
      if \<not> path_exists E mf then
        (Inl Returned, emit (Echo (''Error: metadata file '' @ mf @ '' does not exist.'')) w)
      else
        (case json_load E mf of
           Inl e \<Rightarrow> (Inl (Propagated e), w)
         | Inr metadata \<Rightarrow>
             (let url = API E @ ''/'' @ dataclass A;
                  w1 = emit (HttpGet url) w
              in case fetch E url of
                   Inl (ConnectionError m) \<Rightarrow>
                     (Inl Returned, emit (Echo ''Error: Failed to connect to server.'') w1)
                 | Inl (HTTPError m) \<Rightarrow>
                     (Inl Returned,
                      emit (Echo (''Error: Cannot retrieve schema for dataclass '' @ dataclass A
                                  @ '' from the database.'')) w1)
                 | Inl e \<Rightarrow> (Inl (Propagated e), w1)
                 | Inr res \<Rightarrow>
                     (case json_body res of
                        Inl e \<Rightarrow> (Inl (Propagated e), w1)
                      | Inr schema \<Rightarrow>
                          (case validate E metadata schema of
                             Some (ValidationError m) \<Rightarrow>
                               (Inl Returned,
                                emit (Echo (''Error: metadata file '' @ mf
                                            @ '' does not match the schema.'')) w1)
                           | Some e \<Rightarrow> (Inl (Propagated e), w1)
                           | None \<Rightarrow>
                               (Inr metadata,
                                emit (Echo (''Validated metadata file '' @ mf
                                            @ '' against the schema.'')) w1))))))"

text \<open>Lines 82 to 88: the bucket name.\<close>

definition resolve_bucket :: "env \<Rightarrow> string \<Rightarrow> string \<Rightarrow> string" where
  "resolve_bucket E b d =
     (if b = [] then
        str_lower (unicode_lower E)
          (if CHR ''/'' \<in> set d then last (str_split d CHR ''/'') else d)
      else b)"

text \<open>Lines 96 to 101: make sure the bucket is there.\<close>

definition ensure_bucket :: "env \<Rightarrow> string \<Rightarrow> world \<Rightarrow> exn option \<times> world" where
  "ensure_bucket E b w =
     (case perform E (BucketExists b) w of
        (Some e, w1) \<Rightarrow> (Some e, w1)
      | (None, w1) \<Rightarrow>
          if b \<in> set (buckets w1) then
            (None, emit (Echo (''Bucket '' @ b @ '' already exists on MinIO server.'')) w1)
          else
            (case perform E (MakeBucket b) w1 of
               (Some e, w2) \<Rightarrow> (Some e, w2)
             | (None, w2) \<Rightarrow>
                 (None, emit (Echo (''Bucket '' @ b @ '' created on MinIO server.''))
                          (w2\<lparr>buckets := buckets w2 @ [b]\<rparr>))))"

text \<open>
  Lines 107 to 109 of the loop body, which touch nothing outside: the path of the file,
  its \<^verbatim>\<open>image_type\<close> (added to the set, so hashable) and the length of the opened file.
\<close>

definition prepare :: "env \<Rightarrow> string \<Rightarrow> json \<Rightarrow> exn + (string \<times> json \<times> nat)" where
  "prepare E d file_details =
     (case getitem file_details ''image_path'' of
        Inl e \<Rightarrow> Inl e
      | Inr p \<Rightarrow>
          (case join_json d p of
             Inl e \<Rightarrow> Inl e
           | Inr file_path \<Rightarrow>
               (case getitem file_details ''image_type'' of
                  Inl e \<Rightarrow> Inl e
                | Inr t \<Rightarrow>
                    if \<not> hashable t then Inl (TypeError ''unhashable type'')
                    else
                      (case open_rb E file_path of
                         Inl e \<Rightarrow> Inl e
                       | Inr n \<Rightarrow> Inr (file_path, t, n)))))"

text \<open>
  Lines 106 to 114: the loop, over what is left of the document. \<open>fmt\<close> is what has
  been added to \<^verbatim>\<open>img_format\<close> and \<open>fs\<close> is \<^verbatim>\<open>indexing_metadata['files']\<close>.
\<close>

fun upload_files ::
  "env \<Rightarrow> string \<Rightarrow> string \<Rightarrow> json list \<Rightarrow> json list \<Rightarrow> json list \<Rightarrow> world
     \<Rightarrow> (exn + json list \<times> json list) \<times> world" where
  "upload_files E d b [] fmt fs w = (Inr (fmt, fs), w)"
| "upload_files E d b (file_details # rest) fmt fs w =
     (case prepare E d file_details of
        Inl e \<Rightarrow> (Inl e, w)
      | Inr (file_path, t, n) \<Rightarrow>
          (case perform E (PutObject b file_path n) w of
             (Some e, w1) \<Rightarrow> (Inl e, w1)
           | (None, w1) \<Rightarrow>
               (case setitem file_details ''bucket'' (JStr b) of
                  Inl e \<Rightarrow> (Inl e, w1\<lparr>objects := objects w1 @ [(b, file_path, n)]\<rparr>)
                | Inr file_details' \<Rightarrow>
                    upload_files E d b rest (fmt @ [t]) (fs @ [file_details'])
                      (w1\<lparr>objects := objects w1 @ [(b, file_path, n)]\<rparr>))))"

text \<open>Lines 95 to 127: the body of the first \<^verbatim>\<open>try\<close>; \<open>Inr\<close> is the finished message.\<close>

definition upload_block ::
  "env \<Rightarrow> string \<Rightarrow> string \<Rightarrow> json \<Rightarrow> world \<Rightarrow> (exn + json) \<times> world" where
  "upload_block E d b metadata w =
     (case ensure_bucket E b w of
        (Some e, w1) \<Rightarrow> (Inl e, w1)
      | (None, w1) \<Rightarrow>
          (case iterate metadata of
             Inl e \<Rightarrow> (Inl e, w1)
           | Inr items \<Rightarrow>
               (case upload_files E d b items [] [] w1 of
                  (Inl e, w2) \<Rightarrow> (Inl e, w2)
                | (Inr (fmt, fs), w2) \<Rightarrow>
                    (let w3 = emit (Echo (''Successfully uploaded '' @ d @ '' to '' @ b
                                          @ '' on MinIO server.'')) w2
                     in case walk E d of
                          Inl e \<Rightarrow> (Inl e, w3)
                        | Inr tree \<Rightarrow>
                            (Inr (JObj
                               [(''files'', JList fs),
                                (''dataset_name'', JStr b),
                                (''dataset_details'', JObj
                                   [(''name'', JStr d),
                                    (''bucket'', JStr b),
                                    (''date'', JStr (today E)),
                                    (''size'', JInt (int (get_dataset_size tree))),
                                    (''filetype'', JList (list_of_set E fmt))])]),
                             w3)))))"

text \<open>Lines 135 to 154: the second \<^verbatim>\<open>try\<close> and its \<^verbatim>\<open>except\<close>.\<close>

definition broker_calls :: "args \<Rightarrow> json \<Rightarrow> effect list" where
  "broker_calls A im =
     [BrokerConnect (host A) (port A) (username A) (password A),
      Channel,
      QueueDeclare (queue A) True,
      BasicPublish '''' (queue A) (Dumps im) 2,
      Echo (''Successfully sent metadata for '' @ dir_path A @ '' to '' @ queue A
            @ '' on RabbitMQ server.''),
      ConnectionClose]"

definition announce :: "env \<Rightarrow> args \<Rightarrow> json \<Rightarrow> world \<Rightarrow> world" where
  "announce E A im w =
     (case perform_all E (broker_calls A im) w of
        (Some e, w1) \<Rightarrow> emit (Echo ''Error sending metadata to RabbitMQ'') w1
      | (None, w1) \<Rightarrow> w1)"

text \<open>
  The whole command. \<open>announced\<close> is \<^verbatim>\<open>indexing_metadata\<close> as the second \<^verbatim>\<open>try\<close> receives
  it, when the run gets that far.
\<close>

definition upload_dataset :: "env \<Rightarrow> args \<Rightarrow> world \<Rightarrow> result" where
  "upload_dataset E A w =
     (case load_and_validate E A w of
        (Inl out, w1) \<Rightarrow> \<lparr>outcome = out, announced = None, final = w1\<rparr>
      | (Inr metadata, w1) \<Rightarrow>
          (let b = resolve_bucket E (bucket A) (dir_path A) in
           case perform E (MinioClient (endpoint A) (access_key A) (secret_key A)) w1 of
             (Some e, w2) \<Rightarrow> \<lparr>outcome = Propagated e, announced = None, final = w2\<rparr>
           | (None, w2) \<Rightarrow>
               (case upload_block E (dir_path A) b metadata w2 of
                  (Inl err, w3) \<Rightarrow>
                    \<lparr>outcome = Returned, announced = None,
                     final = emit (Echo (''Error uploading file: '' @ str_exn err)) w3\<rparr>
                | (Inr im, w3) \<Rightarrow>
                    \<lparr>outcome = Returned, announced = Some im, final = announce E A im w3\<rparr>)))"

section \<open>Notions used in the statements\<close>

text \<open>The calls a run has issued, beyond those already in the trace it started from.\<close>

definition new_calls :: "world \<Rightarrow> result \<Rightarrow> effect list" where
  "new_calls w r = drop (length (trace w)) (trace (final r))"

text \<open>The call that puts a stored object.\<close>

definition put_call :: "string \<times> string \<times> nat \<Rightarrow> effect" where
  "put_call u = PutObject (fst u) (fst (snd u)) (snd (snd u))"

text \<open>
  The stored object \<open>u\<close> is what the loop body puts for the record \<open>x\<close>: bucket \<open>b\<close>, the
  key and the length that \<open>prepare\<close> computes.
\<close>

definition prepared ::
  "env \<Rightarrow> string \<Rightarrow> string \<Rightarrow> json \<Rightarrow> string \<times> string \<times> nat \<Rightarrow> bool" where
  "prepared E d b x u =
     (case prepare E d x of
        Inr (file_path, t, n) \<Rightarrow> u = (b, file_path, n)
      | Inl e \<Rightarrow> False)"

text \<open>
  The record \<open>r\<close> of the message stands for the stored object \<open>u\<close>: its \<^verbatim>\<open>bucket\<close> field
  is the bucket of \<open>u\<close>, and the key of \<open>u\<close> is its \<^verbatim>\<open>image_path\<close> joined to the
  directory \<open>d\<close>.
\<close>

definition uploaded_as :: "string \<Rightarrow> json \<Rightarrow> string \<times> string \<times> nat \<Rightarrow> bool" where
  "uploaded_as d r u =
     (case getitem r ''image_path'' of
        Inr (JStr p) \<Rightarrow>
          getitem r ''bucket'' = Inr (JStr (fst u)) \<and> fst (snd u) = path_join d p
      | _ \<Rightarrow> False)"

text \<open>A dict has each key once; \<^verbatim>\<open>json.load\<close> builds nothing else.\<close>

fun keys_distinct :: "json \<Rightarrow> bool" where
  "keys_distinct (JObj kvs) = distinct (map fst kvs)"
| "keys_distinct _ = True"

text \<open>
  The record \<open>y\<close> is the record \<open>x\<close> with one \<^verbatim>\<open>bucket\<close> field, of value \<open>b\<close>, and every
  other field as it was, in the same order.
\<close>

definition augmented :: "string \<Rightarrow> json \<Rightarrow> json \<Rightarrow> bool" where
  "augmented b x y =
     (case (x, y) of
        (JObj kvs, JObj kvs') \<Rightarrow>
          length (filter (\<lambda>kv. fst kv = ''bucket'') kvs') = 1
          \<and> map_of kvs' ''bucket'' = Some (JStr b)
          \<and> filter (\<lambda>kv. fst kv \<noteq> ''bucket'') kvs' = filter (\<lambda>kv. fst kv \<noteq> ''bucket'') kvs
      | _ \<Rightarrow> False)"

text \<open>
  The calls to the broker that the second \<^verbatim>\<open>try\<close> block holds, in order: \<open>broker_calls\<close>
  without the message it prints.
\<close>

definition broker_plan :: "args \<Rightarrow> json \<Rightarrow> effect list" where
  "broker_plan A im =
     [BrokerConnect (host A) (port A) (username A) (password A),
      Channel,
      QueueDeclare (queue A) True,
      BasicPublish [] (queue A) (Dumps im) 2,
      ConnectionClose]"

text \<open>
  What the second \<^verbatim>\<open>try\<close> block is to do, statement by statement, the message it
  prints on success included.
\<close>

definition announcer_steps :: "args \<Rightarrow> json \<Rightarrow> effect list" where
  "announcer_steps A im =
     [BrokerConnect (host A) (port A) (username A) (password A),
      Channel,
      QueueDeclare (queue A) True,
      BasicPublish [] (queue A) (Dumps im) 2,
      Echo (''Successfully sent metadata for '' @ dir_path A @ '' to '' @ queue A
            @ '' on RabbitMQ server.''),
      ConnectionClose]"

text \<open>
  The call number \<open>i\<close> of the list \<open>cs\<close>, issued in the world \<open>w\<close> after the calls before
  it, raises. Printing a message never does.
\<close>

definition raises_at :: "env \<Rightarrow> world \<Rightarrow> effect list \<Rightarrow> nat \<Rightarrow> bool" where
  "raises_at E w cs i =
     (case cs ! i of
        Echo m \<Rightarrow> False
      | c \<Rightarrow> raises E (w\<lparr>trace := trace w @ take i cs\<rparr>) c \<noteq> None)"

section \<open>An example: the data set \<open>catset\<close>\<close>

text \<open>
  A directory \<open>catset\<close> with \<open>metadata.json\<close>, the two images it lists and a
  subdirectory it does not mention; the schema service knows the dataclass \<open>animals\<close>,
  the store is empty and nothing fails. Every name is ASCII, so \<open>unicode_lower\<close> is never
  asked.
\<close>

definition catset_args :: args where
  "catset_args =
     \<lparr>dir_path = ''catset'', metadatafile = ''metadata.json'', dataclass = ''animals'',
      bucket = [], endpoint = ''localhost:9000'', access_key = ''minio'',
      secret_key = ''minio123'', queue = ''metadata'', host = ''localhost'', port = ''5672'',
      username = ''guest'', password = ''guest''\<rparr>"

definition catset_records :: "json list" where
  "catset_records =
     [JObj [(''image_path'', JStr ''cat1.jpg''), (''image_type'', JStr ''jpg'')],
      JObj [(''image_path'', JStr ''cat2.png''), (''image_type'', JStr ''png'')]]"

definition catset_metadata :: json where
  "catset_metadata = JList catset_records"

definition catset_tree :: fsnode where
  "catset_tree =
     Directory [(''metadata.json'', RegFile 150), (''cat1.jpg'', RegFile 1000),
                (''cat2.png'', RegFile 2000),
                (''extra'', Directory [(''notes.txt'', RegFile 30), (''pipe'', Other)])]"

definition catset_env :: env where
  "catset_env =
     \<lparr>API = ''http://localhost:8000/schema'',
      path_exists = (\<lambda>p. p = ''catset/metadata.json''),
      json_load = (\<lambda>p. if p = ''catset/metadata.json'' then Inr catset_metadata
                        else Inl (OtherError ''No such file or directory'')),
      requests_get = (\<lambda>u. if u = ''http://localhost:8000/schema/animals''
                           then Inr \<lparr>status_code = 200,
                                     json_body = Inr (JObj [(''type'', JStr ''array'')])\<rparr>
                           else Inl (ConnectionError ''Max retries exceeded'')),
      validate = (\<lambda>instance schema. None),
      raises = (\<lambda>w c. None),
      open_rb = (\<lambda>p. if p = ''catset/cat1.jpg'' then Inr 1000
                      else if p = ''catset/cat2.png'' then Inr 2000
                      else Inl (OtherError ''No such file or directory'')),
      walk = (\<lambda>p. Inr catset_tree),
      today = ''2024-05-01'',
      list_of_set = remdups,
      unicode_lower = (\<lambda>s. s)\<rparr>"

definition empty_world :: world where
  "empty_world = \<lparr>buckets = [], objects = [], trace = []\<rparr>"

definition catset_message :: json where
  "catset_message =
     JObj [(''files'', JList
              [JObj [(''image_path'', JStr ''cat1.jpg''), (''image_type'', JStr ''jpg''),
                     (''bucket'', JStr ''catset'')],
               JObj [(''image_path'', JStr ''cat2.png''), (''image_type'', JStr ''png''),
                     (''bucket'', JStr ''catset'')]]),
           (''dataset_name'', JStr ''catset''),
           (''dataset_details'', JObj
              [(''name'', JStr ''catset''), (''bucket'', JStr ''catset''),
               (''date'', JStr ''2024-05-01''), (''size'', JInt 3180),
               (''filetype'', JList [JStr ''jpg'', JStr ''png''])])]"

text \<open>The world of the example after validation, and after the upload.\<close>

definition catset_validated :: world where
  "catset_validated =
     \<lparr>buckets = [], objects = [],
      trace = [HttpGet ''http://localhost:8000/schema/animals'',
               Echo ''Validated metadata file catset/metadata.json against the schema.'']\<rparr>"

definition catset_uploaded :: world where
  "catset_uploaded =
     \<lparr>buckets = [''catset''],
      objects = [(''catset'', ''catset/cat1.jpg'', 1000), (''catset'', ''catset/cat2.png'', 2000)],
      trace = [HttpGet ''http://localhost:8000/schema/animals'',
               Echo ''Validated metadata file catset/metadata.json against the schema.'',
               MinioClient ''localhost:9000'' ''minio'' ''minio123'',
               BucketExists ''catset'', MakeBucket ''catset'',
               Echo ''Bucket catset created on MinIO server.'',
               PutObject ''catset'' ''catset/cat1.jpg'' 1000,
               PutObject ''catset'' ''catset/cat2.png'' 2000,
               Echo ''Successfully uploaded catset to catset on MinIO server.'']\<rparr>"

text \<open>
  A directory name that is not ASCII: the bytes of the UTF-8 encoding of the capitals
  D, E acute, J, A grave, and of what \<^verbatim>\<open>str.lower()\<close> makes of them.
\<close>

definition deja_upper :: string where
  "deja_upper = [CHR 0x44, CHR 0xC3, CHR 0x89, CHR 0x4A, CHR 0xC3, CHR 0x80]"

definition deja_lower :: string where
  "deja_lower = [CHR 0x64, CHR 0xC3, CHR 0xA9, CHR 0x6A, CHR 0xC3, CHR 0xA0]"

definition deja_env :: env where
  "deja_env = catset_env\<lparr>unicode_lower := (\<lambda>s. if s = deja_upper then deja_lower else s)\<rparr>"

text \<open>The same, with the schema rejecting the document.\<close>

definition invalid_env :: env where
  "invalid_env =
     catset_env\<lparr>validate := (\<lambda>instance schema. Some (ValidationError ''is not of type array''))\<rparr>"

text \<open>The same, with no metadata file in the directory.\<close>

definition missing_env :: env where
  "missing_env = catset_env\<lparr>path_exists := (\<lambda>p. False)\<rparr>"


text \<open>The same, with the broker refusing the connection.\<close>

definition broker_down_env :: env where
  "broker_down_env =
     catset_env\<lparr>raises := (\<lambda>w c. if c = BrokerConnect ''localhost'' ''5672'' ''guest'' ''guest''
                                then Some (OtherError ''Connection refused'') else None)\<rparr>"

text \<open>The same, with the schema service answering 300 Multiple Choices and a JSON body.\<close>

definition choices_env :: env where
  "choices_env =
     catset_env\<lparr>requests_get := (\<lambda>u. Inr \<lparr>status_code = 300, json_body = Inr (JObj [])\<rparr>)\<rparr>"

section \<open>The stages, one by one\<close>

lemma emit_simps [simp]:
  "trace (emit c w) = trace w @ [c]"
  "buckets (emit c w) = buckets w"
  "objects (emit c w) = objects w"
  by (simp_all add: emit_def)

lemma perform_world: "perform E c w = (r, w') \<Longrightarrow> w' = emit c w"
  by (auto simp: perform_def)

lemma prepare_dict: "prepare E d x = Inr v \<Longrightarrow> \<exists>kvs. x = JObj kvs"
  by (cases x) (auto simp: prepare_def)

lemma upload_files_ok:
  "upload_files E d b xs fmt fs w = (Inr (fmt', fs'), w') \<Longrightarrow>
     \<exists>ys ups. fs' = fs @ ys \<and> objects w' = objects w @ ups \<and> buckets w' = buckets w
       \<and> trace w' = trace w @ map put_call ups
       \<and> list_all2 (\<lambda>x y. setitem x ''bucket'' (JStr b) = Inr y) xs ys
       \<and> list_all2 (prepared E d b) xs ups"
proof (induction xs arbitrary: fmt fs w)
  case Nil
  then show ?case by simp
next
  case (Cons x xs)
  from Cons.prems obtain fp t n y where
    p: "prepare E d x = Inr (fp, t, n)" and
    r: "raises E w (PutObject b fp n) = None" and
    s: "setitem x ''bucket'' (JStr b) = Inr y" and
    rest: "upload_files E d b xs (fmt @ [t]) (fs @ [y])
             ((emit (PutObject b fp n) w)\<lparr>objects := objects w @ [(b, fp, n)]\<rparr>) = (Inr (fmt', fs'), w')"
    by (auto simp: perform_def split: sum.splits option.splits prod.splits)
  from Cons.IH [OF rest] obtain ys ups where
    ih: "fs' = (fs @ [y]) @ ys" "objects w' = (objects w @ [(b, fp, n)]) @ ups"
        "buckets w' = buckets w" "trace w' = (trace w @ [PutObject b fp n]) @ map put_call ups"
        "list_all2 (\<lambda>x y. setitem x ''bucket'' (JStr b) = Inr y) xs ys"
        "list_all2 (prepared E d b) xs ups"
    by auto
  have "fs' = fs @ (y # ys)" "objects w' = objects w @ ((b, fp, n) # ups)"
       "trace w' = trace w @ map put_call ((b, fp, n) # ups)"
    using ih by (simp_all add: put_call_def)
  moreover have "list_all2 (\<lambda>x y. setitem x ''bucket'' (JStr b) = Inr y) (x # xs) (y # ys)"
    using s ih by simp
  moreover have "list_all2 (prepared E d b) (x # xs) ((b, fp, n) # ups)"
    using p ih by (simp add: prepared_def)
  ultimately show ?case using ih(3) by blast
qed

lemma upload_files_any:
  "upload_files E d b xs fmt fs w = (r, w') \<Longrightarrow>
     \<exists>k ups. k \<le> length xs \<and> objects w' = objects w @ ups \<and> buckets w' = buckets w
       \<and> list_all2 (prepared E d b) (take k xs) ups
       \<and> (\<exists>evs. trace w' = trace w @ evs \<and> (\<forall>c\<in>set evs. is_storage c))
       \<and> (\<forall>e. r = Inl e \<longrightarrow> k < length xs)"
proof (induction xs arbitrary: fmt fs w)
  case Nil
  then show ?case by auto
next
  case (Cons x xs)
  show ?case
  proof (cases "prepare E d x")
    case (Inl e)
    with Cons.prems have "r = Inl e" "w' = w" by auto
    then show ?thesis by (intro exI [of _ 0] exI [of _ "[]"]) simp
  next
    case (Inr v)
    then obtain fp t n where p: "prepare E d x = Inr (fp, t, n)" by (cases v) auto
    from prepare_dict [OF p] obtain kvs where x: "x = JObj kvs" by blast
    show ?thesis
    proof (cases "raises E w (PutObject b fp n)")
      case (Some e)
      with Cons.prems p have "r = Inl e" "w' = emit (PutObject b fp n) w"
        by (auto simp: perform_def)
      then show ?thesis by (intro exI [of _ 0] exI [of _ "[]"]) simp
    next
      case None
      with Cons.prems p x have rest:
        "upload_files E d b xs (fmt @ [t]) (fs @ [JObj (AList.update ''bucket'' (JStr b) kvs)])
           ((emit (PutObject b fp n) w)\<lparr>objects := objects w @ [(b, fp, n)]\<rparr>) = (r, w')"
        by (auto simp: perform_def)
      from Cons.IH [OF rest] obtain k ups evs where
        ih: "k \<le> length xs" "objects w' = (objects w @ [(b, fp, n)]) @ ups"
            "buckets w' = buckets w" "list_all2 (prepared E d b) (take k xs) ups"
            "trace w' = (trace w @ [PutObject b fp n]) @ evs" "\<forall>c\<in>set evs. is_storage c"
            "\<forall>e. r = Inl e \<longrightarrow> k < length xs"
        by auto
      have "Suc k \<le> length (x # xs)" using ih(1) by simp
      moreover have "objects w' = objects w @ ((b, fp, n) # ups)" using ih(2) by simp
      moreover have "list_all2 (prepared E d b) (take (Suc k) (x # xs)) ((b, fp, n) # ups)"
        using ih(4) p by (simp add: prepared_def)
      moreover have "trace w' = trace w @ (PutObject b fp n # evs)" using ih(5) by simp
      moreover have "\<forall>c\<in>set (PutObject b fp n # evs). is_storage c" using ih(6) by simp
      moreover have "\<forall>e. r = Inl e \<longrightarrow> Suc k < length (x # xs)" using ih(7) by simp
      ultimately show ?thesis using ih(3) by blast
    qed
  qed
qed

lemma load_and_validate_ok:
  assumes "load_and_validate E A w = (Inr md, w1)"
  shows "path_exists E (path_join (dir_path A) (metadatafile A))
     \<and> json_load E (path_join (dir_path A) (metadatafile A)) = Inr md
     \<and> (\<exists>res schema. fetch E (API E @ ''/'' @ dataclass A) = Inr res
            \<and> json_body res = Inr schema \<and> validate E md schema = None)
     \<and> w1 = emit (Echo (''Validated metadata file '' @ path_join (dir_path A) (metadatafile A)
                        @ '' against the schema.''))
              (emit (HttpGet (API E @ ''/'' @ dataclass A)) w)"
  using assms unfolding load_and_validate_def Let_def
  by (auto split: if_splits sum.splits exn.splits option.splits)

lemma ensure_bucket_world:
  assumes "ensure_bucket E b w = (r, w1)"
  shows "objects w1 = objects w
     \<and> (\<exists>bs. buckets w1 = buckets w @ bs)
     \<and> (\<exists>evs. trace w1 = trace w @ evs \<and> (\<forall>c\<in>set evs. \<not> is_broker c))"
  using assms unfolding ensure_bucket_def perform_def
  by (auto split: if_splits option.splits)

lemma upload_block_ok:
  assumes "upload_block E d b md w = (Inr im, w')"
  shows "\<exists>w1 items fmt fs w2 tree.
       ensure_bucket E b w = (None, w1) \<and> iterate md = Inr items
     \<and> upload_files E d b items [] [] w1 = (Inr (fmt, fs), w2)
     \<and> walk E d = Inr tree
     \<and> im = JObj [(''files'', JList fs), (''dataset_name'', JStr b),
                  (''dataset_details'', JObj
                     [(''name'', JStr d), (''bucket'', JStr b), (''date'', JStr (today E)),
                      (''size'', JInt (int (get_dataset_size tree))),
                      (''filetype'', JList (list_of_set E fmt))])]
     \<and> w' = emit (Echo (''Successfully uploaded '' @ d @ '' to '' @ b @ '' on MinIO server.'')) w2"
  using assms unfolding upload_block_def Let_def
  by (auto split: prod.splits sum.splits option.splits)

lemma upload_block_world:
  assumes "upload_block E d b md w = (r, w')"
  shows "(\<exists>ups. objects w' = objects w @ ups
            \<and> (\<forall>items. iterate md = Inr items \<longrightarrow>
                  (\<exists>k\<le>length items. list_all2 (prepared E d b) (take k items) ups)))
     \<and> (\<exists>bs. buckets w' = buckets w @ bs)
     \<and> (\<exists>evs. trace w' = trace w @ evs \<and> (\<forall>c\<in>set evs. \<not> is_broker c))"
proof -
  obtain r1 w1 where eb: "ensure_bucket E b w = (r1, w1)" by (cases "ensure_bucket E b w")
  from ensure_bucket_world [OF eb] obtain bs evs1 where
    w1: "objects w1 = objects w" "buckets w1 = buckets w @ bs"
        "trace w1 = trace w @ evs1" "\<forall>c\<in>set evs1. \<not> is_broker c"
    by blast
  show ?thesis
  proof (cases "r1 = None \<and> (\<exists>items. iterate md = Inr items)")
    case False
    with assms eb have "w' = w1"
      unfolding upload_block_def by (auto split: option.splits sum.splits)
    with w1 show ?thesis by (auto intro: exI [of _ 0])
  next
    case True
    then obtain items where it: "r1 = None" "iterate md = Inr items" by blast
    obtain r2 w2 where uf: "upload_files E d b items [] [] w1 = (r2, w2)"
      by (cases "upload_files E d b items [] [] w1")
    from upload_files_any [OF uf] obtain k ups evs2 where
      w2: "k \<le> length items" "objects w2 = objects w1 @ ups" "buckets w2 = buckets w1"
          "list_all2 (prepared E d b) (take k items) ups"
          "trace w2 = trace w1 @ evs2" "\<forall>c\<in>set evs2. is_storage c"
      by blast
    have nb: "\<forall>c\<in>set evs2. \<not> is_broker c"
    proof
      fix c assume "c \<in> set evs2"
      with w2(6) have "is_storage c" by blast
      then show "\<not> is_broker c" by (cases c) auto
    qed
    from assms eb it uf have
      "w' = w2 \<or> w' = emit (Echo (''Successfully uploaded '' @ d @ '' to '' @ b @ '' on MinIO server.'')) w2"
      unfolding upload_block_def Let_def by (auto split: sum.splits prod.splits)
    then show ?thesis
    proof
      assume "w' = w2"
      with w1 w2 nb it show ?thesis by auto
    next
      assume e: "w' = emit (Echo (''Successfully uploaded '' @ d @ '' to '' @ b @ '' on MinIO server.'')) w2"
      have "objects w' = objects w @ ups" using e w1 w2 by simp
      moreover have "\<forall>items'. iterate md = Inr items' \<longrightarrow>
                  (\<exists>k\<le>length items'. list_all2 (prepared E d b) (take k items') ups)"
        using it w2 by auto
      moreover have "buckets w' = buckets w @ bs" using e w1 w2 by simp
      moreover have "trace w' = trace w @ (evs1 @ evs2 @ [Echo (''Successfully uploaded '' @ d @ '' to '' @ b @ '' on MinIO server.'')])"
        using e w1 w2 by simp
      moreover have "\<forall>c\<in>set (evs1 @ evs2 @ [Echo (''Successfully uploaded '' @ d @ '' to '' @ b @ '' on MinIO server.'')]). \<not> is_broker c"
        using w1 nb by auto
      ultimately show ?thesis by blast
    qed
  qed
qed

lemma perform_all_world:
  "perform_all E cs w = (r, w') \<Longrightarrow>
     objects w' = objects w \<and> buckets w' = buckets w
     \<and> (\<exists>k\<le>length cs. trace w' = trace w @ take k cs \<and> (r = None \<longrightarrow> k = length cs))"
proof (induction cs arbitrary: w)
  case Nil
  then show ?case by simp
next
  case (Cons c cs)
  show ?case
  proof (cases "fst (perform E c w)")
    case (Some e)
    with Cons.prems have "r = Some e" "w' = emit c w"
      by (auto simp: perform_def split: prod.splits)
    then show ?thesis by (auto intro!: exI [of _ 1])
  next
    case None
    with Cons.prems have rest: "perform_all E cs (emit c w) = (r, w')"
      by (auto simp: perform_def split: prod.splits)
    from Cons.IH [OF rest] obtain k where
      "objects w' = objects w" "buckets w' = buckets w" "k \<le> length cs"
      "trace w' = (trace w @ [c]) @ take k cs" "r = None \<longrightarrow> k = length cs"
      by auto
    then show ?thesis by (auto intro!: exI [of _ "Suc k"])
  qed
qed

lemma perform_all_no_raise:
  "\<forall>w c. is_broker c \<longrightarrow> raises E w c = None \<Longrightarrow> \<forall>c\<in>set cs. is_broker c \<or> (\<exists>m. c = Echo m)
     \<Longrightarrow> fst (perform_all E cs w) = None"
proof (induction cs arbitrary: w)
  case Nil
  then show ?case by simp
next
  case (Cons c cs)
  have "fst (perform E c w) = None"
    using Cons.prems by (cases c) (auto simp: perform_def)
  then have "perform E c w = (None, emit c w)" by (simp add: perform_def)
  with Cons show ?case by simp
qed

lemma announced_SomeD:
  assumes "announced (upload_dataset E A w) = Some im"
  shows "\<exists>md w1 w2 w3.
       load_and_validate E A w = (Inr md, w1)
     \<and> perform E (MinioClient (endpoint A) (access_key A) (secret_key A)) w1 = (None, w2)
     \<and> upload_block E (dir_path A) (resolve_bucket E (bucket A) (dir_path A)) md w2 = (Inr im, w3)
     \<and> upload_dataset E A w = \<lparr>outcome = Returned, announced = Some im, final = announce E A im w3\<rparr>"
  using assms unfolding upload_dataset_def Let_def
  by (auto split: prod.splits sum.splits option.splits)


section \<open>The bucket name\<close>

lemma str_split_not_Nil: "str_split s sep \<noteq> []"
  by (induction s) (auto split: list.splits)

lemma str_split_no_sep: "sep \<notin> set s \<Longrightarrow> str_split s sep = [s]"
  by (induction s) auto

lemma str_split_single_empty: "str_split s sep = [ [] ] \<Longrightarrow> s = []"
  using str_split_not_Nil [of "tl s" sep] by (cases s) (auto split: list.splits if_splits)

lemma last_str_split_trailing:
  "s \<noteq> [] \<Longrightarrow> last s = sep \<Longrightarrow> last (str_split s sep) = []"
proof (induction s)
  case Nil
  then show ?case by simp
next
  case (Cons c cs)
  show ?case
  proof (cases "cs = []")
    case True
    with Cons.prems show ?thesis by simp
  next
    case False
    with Cons.prems have "last cs = sep" by simp
    with Cons.IH False have IH: "last (str_split cs sep) = []" by simp
    then show ?thesis
      using str_split_not_Nil [of cs sep] str_split_single_empty [of cs sep] False
      by (auto split: list.splits)
  qed
qed

lemma str_split_single: "str_split s sep = [w] \<Longrightarrow> s = w \<and> sep \<notin> set w"
proof (induction s arbitrary: w)
  case Nil
  then show ?case by simp
next
  case (Cons c cs)
  show ?case
  proof (cases "c = sep")
    case True
    with Cons.prems show ?thesis using str_split_not_Nil [of cs sep] by simp
  next
    case False
    with Cons.prems obtain v where "str_split cs sep = [v]" "w = c # v"
      using str_split_not_Nil [of cs sep] by (auto split: list.splits)
    with Cons.IH [of v] False show ?thesis by simp
  qed
qed

lemma last_str_split_suffix:
  "\<exists>pre. d = pre @ last (str_split d sep) \<and> sep \<notin> set (last (str_split d sep))
         \<and> (pre = [] \<or> last pre = sep)"
proof (induction d)
  case Nil
  then show ?case by simp
next
  case (Cons c cs)
  then obtain pre where pre: "cs = pre @ last (str_split cs sep)"
      "sep \<notin> set (last (str_split cs sep))" "pre = [] \<or> last pre = sep"
    by blast
  obtain v vs where sp: "str_split cs sep = v # vs"
    using str_split_not_Nil [of cs sep] by (cases "str_split cs sep") auto
  show ?case
  proof (cases "c = sep")
    case True
    then have "last (str_split (c # cs) sep) = last (str_split cs sep)"
      using sp by simp
    moreover have "c # cs = (c # pre) @ last (str_split cs sep)" using pre(1) by simp
    moreover have "c # pre = [] \<or> last (c # pre) = sep" using pre(3) True by auto
    ultimately show ?thesis using pre(2) by metis
  next
    case False
    show ?thesis
    proof (cases "vs = []")
      case True
      with sp str_split_single [of cs sep v] have "cs = v" "sep \<notin> set v" by auto
      moreover from sp True False have "last (str_split (c # cs) sep) = c # v" by simp
      ultimately show ?thesis using False by (intro exI [of _ "[]"]) simp
    next
      case vs: False
      with sp False have l: "last (str_split (c # cs) sep) = last (str_split cs sep)" by simp
      have "pre \<noteq> []"
      proof
        assume "pre = []"
        with pre have "sep \<notin> set cs" by simp
        then have "str_split cs sep = [cs]" by (rule str_split_no_sep)
        with sp vs show False by simp
      qed
      with pre(3) have "last (c # pre) = sep" by simp
      moreover have "c # cs = (c # pre) @ last (str_split cs sep)" using pre(1) by simp
      ultimately show ?thesis using pre(2) l by metis
    qed
  qed
qed

lemma capital_codes: "map char_of [65..<91::nat] = ''ABCDEFGHIJKLMNOPQRSTUVWXYZ''"
  by code_simp

lemma letters_by_code:
  assumes "65 \<le> (of_char c :: nat)" and "(of_char c :: nat) \<le> 90"
  shows "c \<in> set ''ABCDEFGHIJKLMNOPQRSTUVWXYZ''"
proof -
  have "(of_char c :: nat) < 91" using assms(2) by arith
  with assms(1) have "(of_char c :: nat) \<in> {65..<91}" by (simp only: atLeastLessThan_iff)
  then have "(of_char c :: nat) \<in> set [65..<91]" by (simp only: set_upt)
  then have "char_of (of_char c :: nat) \<in> set (map char_of [65..<91::nat])"
    by (simp only: set_map image_eqI)
  then show ?thesis by (simp only: capital_codes char_of_char)
qed

lemma letter_code:
  assumes "c \<in> set ''ABCDEFGHIJKLMNOPQRSTUVWXYZ''"
  shows "65 \<le> (of_char c :: nat) \<and> (of_char c :: nat) \<le> 90
         \<and> (of_char (lower_char c) :: nat) = of_char c + 32"
  using assms by (auto simp: lower_char_def)

lemma lower_char_other:
  assumes "c \<notin> set ''ABCDEFGHIJKLMNOPQRSTUVWXYZ''"
  shows "lower_char c = c"
  using assms by (simp add: lower_char_def)

lemma of_char_lower_char:
  "(of_char (lower_char c) :: nat)
     = (if 65 \<le> (of_char c :: nat) \<and> (of_char c :: nat) \<le> 90 then of_char c + 32 else of_char c)"
proof (cases "c \<in> set ''ABCDEFGHIJKLMNOPQRSTUVWXYZ''")
  case True
  from letter_code [OF True] show ?thesis by simp
next
  case False
  from lower_char_other [OF False] letters_by_code [of c] False show ?thesis by auto
qed

lemma str_lower_ascii:
  "is_ascii s \<Longrightarrow>
     map (of_char :: char \<Rightarrow> nat) (str_lower L s)
       = map (\<lambda>c. if 65 \<le> (of_char c :: nat) \<and> (of_char c :: nat) \<le> 90
                   then of_char c + 32 else of_char c) s"
  by (simp add: str_lower_def of_char_lower_char)

lemma str_lower_example: "str_lower L ''MyData'' = ''mydata''"
  by (simp add: str_lower_def is_ascii_def lower_char_def)

text \<open>
  C3. With no bucket flag (the flag's default is the empty string), the bucket name is
  \<^verbatim>\<open>lower()\<close> of the last element of the directory path split on \<open>/\<close>, whether or not
  the path holds a \<open>/\<close>. That element is the end of the path after its last \<open>/\<close>, or the
  whole path when there is none. When it is ASCII the name has, character by character,
  the codes of the element with 32 added to those of A to Z (65 to 90); when it is not,
  the name is what the Unicode lower-casing makes of it. The path \<open>a/b/MyData\<close> gives
  \<open>mydata\<close>, and a path without \<open>/\<close> gives the whole path lower-cased.
\<close>

theorem bucket_from_dir_path:
  "resolve_bucket E [] d = str_lower (unicode_lower E) (last (str_split d CHR ''/''))
   \<and> (\<exists>pre. d = pre @ last (str_split d CHR ''/'')
           \<and> CHR ''/'' \<notin> set (last (str_split d CHR ''/''))
           \<and> (pre = [] \<or> last pre = CHR ''/''))
   \<and> (list_all (\<lambda>c. of_char c < (128::nat)) (last (str_split d CHR ''/'')) \<longrightarrow>
         map (of_char :: char \<Rightarrow> nat) (resolve_bucket E [] d)
           = map (\<lambda>c. if 65 \<le> (of_char c :: nat) \<and> (of_char c :: nat) \<le> 90
                       then of_char c + 32 else of_char c)
               (last (str_split d CHR ''/'')))
   \<and> (\<not> list_all (\<lambda>c. of_char c < (128::nat)) (last (str_split d CHR ''/'')) \<longrightarrow>
         resolve_bucket E [] d = unicode_lower E (last (str_split d CHR ''/'')))
   \<and> resolve_bucket E [] ''a/b/MyData'' = ''mydata''
   \<and> (CHR ''/'' \<notin> set d \<longrightarrow> resolve_bucket E [] d = str_lower (unicode_lower E) d)"
proof -
  have eq: "resolve_bucket E [] d = str_lower (unicode_lower E) (last (str_split d CHR ''/''))"
    by (simp add: resolve_bucket_def str_split_no_sep)
  have asc: "list_all (\<lambda>c. of_char c < (128::nat)) (last (str_split d CHR ''/'')) \<longrightarrow>
         map (of_char :: char \<Rightarrow> nat) (resolve_bucket E [] d)
           = map (\<lambda>c. if 65 \<le> (of_char c :: nat) \<and> (of_char c :: nat) \<le> 90
                       then of_char c + 32 else of_char c)
               (last (str_split d CHR ''/''))"
    unfolding eq using str_lower_ascii [of "last (str_split d CHR ''/'')" "unicode_lower E"]
    by (simp add: is_ascii_def)
  have uni: "\<not> list_all (\<lambda>c. of_char c < (128::nat)) (last (str_split d CHR ''/'')) \<longrightarrow>
         resolve_bucket E [] d = unicode_lower E (last (str_split d CHR ''/''))"
    unfolding eq by (simp add: str_lower_def is_ascii_def)
  have ex: "resolve_bucket E [] ''a/b/MyData'' = ''mydata''"
    by (simp add: resolve_bucket_def str_lower_example)
  have ns: "CHR ''/'' \<notin> set d \<longrightarrow> resolve_bucket E [] d = str_lower (unicode_lower E) d"
    by (simp add: resolve_bucket_def)
  from eq last_str_split_suffix [of d "CHR ''/''"] asc uni ex ns show ?thesis by blast
qed

theorem bucket_from_dir_path_witness:
  "CHR ''/'' \<notin> set ''MyData''
   \<and> list_all (\<lambda>c. of_char c < (128::nat)) (last (str_split ''MyData'' CHR ''/''))
   \<and> resolve_bucket catset_env [] ''MyData'' = ''mydata''
   \<and> map (of_char :: char \<Rightarrow> nat) (resolve_bucket catset_env [] ''MyData'') = [109, 121, 100, 97, 116, 97 :: nat]
   \<and> list_all (\<lambda>c. of_char c < (128::nat)) (last (str_split (''data/'' @ deja_upper) CHR ''/''))
       = False
   \<and> resolve_bucket deja_env [] (''data/'' @ deja_upper) = deja_lower"
proof -
  have a: "list_all (\<lambda>c. of_char c < (128::nat)) (last (str_split ''MyData'' CHR ''/''))"
    by simp
  have n: "\<not> list_all (\<lambda>c. of_char c < (128::nat))
               (last (str_split (''data/'' @ deja_upper) CHR ''/''))"
    by (simp add: deja_upper_def)
  have s: "last (str_split (''data/'' @ deja_upper) CHR ''/'') = deja_upper"
    by (simp add: deja_upper_def)
  have l: "unicode_lower deja_env deja_upper = deja_lower"
    by (simp add: deja_env_def)
  have r: "resolve_bucket catset_env [] ''MyData'' = ''mydata''"
    using bucket_from_dir_path [of catset_env "''MyData''"] by (simp add: str_lower_example)
  from bucket_from_dir_path [of deja_env "''data/'' @ deja_upper"]
  have "\<not> list_all (\<lambda>c. of_char c < (128::nat))
               (last (str_split (''data/'' @ deja_upper) CHR ''/'')) \<longrightarrow>
          resolve_bucket deja_env [] (''data/'' @ deja_upper)
            = unicode_lower deja_env (last (str_split (''data/'' @ deja_upper) CHR ''/''))"
    by blast
  with n have "resolve_bucket deja_env [] (''data/'' @ deja_upper)
                 = unicode_lower deja_env (last (str_split (''data/'' @ deja_upper) CHR ''/''))"
    by blast
  then have d: "resolve_bucket deja_env [] (''data/'' @ deja_upper) = deja_lower"
    by (simp only: s l)
  show ?thesis using a n r d by simp
qed

text \<open>
  C10. A directory path that holds a \<open>/\<close> and ends with one gives the empty bucket
  name when no bucket flag is passed, as \<open>a/b/MyData/\<close> does; a bucket flag that is
  passed is used as it is, without lower-casing.
\<close>

theorem bucket_trailing_slash:
  "(d \<noteq> [] \<and> CHR ''/'' \<in> set d \<and> last d = CHR ''/'' \<longrightarrow> resolve_bucket E [] d = [])
   \<and> resolve_bucket E [] ''a/b/MyData/'' = []
   \<and> (b \<noteq> [] \<longrightarrow> resolve_bucket E b d = b)"
  by (simp add: resolve_bucket_def last_str_split_trailing str_lower_def is_ascii_def)

theorem bucket_trailing_slash_witness:
  "''data/'' \<noteq> [] \<and> CHR ''/'' \<in> set ''data/'' \<and> last ''data/'' = CHR ''/''
   \<and> resolve_bucket catset_env [] ''data/'' = []
   \<and> ''MyBucket'' \<noteq> [] \<and> resolve_bucket catset_env ''MyBucket'' ''a/b/MyData'' = ''MyBucket''"
  using bucket_trailing_slash [of "''data/''" catset_env "''MyBucket''"]
        bucket_trailing_slash [of "''a/b/MyData''" catset_env "''MyBucket''"] by simp

section \<open>Runs that reach the announcer\<close>

lemma step_uploaded_as:
  assumes "prepared E d b x u" and "setitem x ''bucket'' (JStr b) = Inr y"
  shows "uploaded_as d y u"
proof -
  from assms(1) obtain fp t n where p: "prepare E d x = Inr (fp, t, n)" and u: "u = (b, fp, n)"
    by (auto simp: prepared_def split: sum.splits)
  from prepare_dict [OF p] obtain kvs where x: "x = JObj kvs" by blast
  with assms(2) have y: "y = JObj (AList.update ''bucket'' (JStr b) kvs)" by simp
  from p x obtain q where q: "getitem (JObj kvs) ''image_path'' = Inr (JStr q)" "fp = path_join d q"
    unfolding prepare_def
    by (auto split: sum.splits if_splits elim!: join_json.elims)
  have "getitem y ''image_path'' = Inr (JStr q)"
    unfolding y using q(1) by (simp add: update_conv')
  moreover have "getitem y ''bucket'' = Inr (JStr b)"
    unfolding y by (simp add: update_conv')
  ultimately show ?thesis using u q(2) by (simp add: uploaded_as_def)
qed

text \<open>
  C1. When a run reaches the announcer, the records of the message's \<^verbatim>\<open>files\<close> list are,
  one for one and in order, the objects the run has added to the store: each record's
  \<^verbatim>\<open>bucket\<close> field is the bucket of its object, the object's key is the record's
  \<^verbatim>\<open>image_path\<close> joined to the directory, and the object is in the store because its
  \<^verbatim>\<open>put_object\<close> call was issued and returned. That bucket is the resolved bucket name.
\<close>

theorem message_files_uploaded:
  assumes "announced (upload_dataset E A w) = Some im"
  shows "\<exists>fs ups. getitem im ''files'' = Inr (JList fs)
           \<and> objects (final (upload_dataset E A w)) = objects w @ ups
           \<and> list_all2 (uploaded_as (dir_path A)) fs ups
           \<and> (\<forall>u\<in>set ups. fst u = resolve_bucket E (bucket A) (dir_path A)
                  \<and> put_call u \<in> set (new_calls w (upload_dataset E A w)))"
proof -
  let ?b = "resolve_bucket E (bucket A) (dir_path A)"
  let ?d = "dir_path A"
  from announced_SomeD [OF assms] obtain md w1 w2 w3 where
    lv: "load_and_validate E A w = (Inr md, w1)" and
    mc: "perform E (MinioClient (endpoint A) (access_key A) (secret_key A)) w1 = (None, w2)" and
    ub: "upload_block E ?d ?b md w2 = (Inr im, w3)" and
    run: "upload_dataset E A w = \<lparr>outcome = Returned, announced = Some im, final = announce E A im w3\<rparr>"
    by blast
  from upload_block_ok [OF ub] obtain v1 items fmt fs v2 det where
    eb: "ensure_bucket E ?b w2 = (None, v1)" and
    uf: "upload_files E ?d ?b items [] [] v1 = (Inr (fmt, fs), v2)" and
    im: "im = JObj [(''files'', JList fs), (''dataset_name'', JStr ?b), (''dataset_details'', det)]" and
    w3: "w3 = emit (Echo (''Successfully uploaded '' @ ?d @ '' to '' @ ?b @ '' on MinIO server.'')) v2"
    by blast
  from upload_files_ok [OF uf] obtain ys ups where
    ok: "fs = [] @ ys" "objects v2 = objects v1 @ ups" "trace v2 = trace v1 @ map put_call ups"
        "list_all2 (\<lambda>x y. setitem x ''bucket'' (JStr ?b) = Inr y) items ys"
        "list_all2 (prepared E ?d ?b) items ups"
    by blast
  from ensure_bucket_world [OF eb] obtain evs1 where
    v1: "objects v1 = objects w2" "trace v1 = trace w2 @ evs1" by blast
  have w2: "w2 = emit (MinioClient (endpoint A) (access_key A) (secret_key A)) w1"
    using perform_world [OF mc] .
  from load_and_validate_ok [OF lv] obtain evs0 where
    w1: "objects w1 = objects w" "trace w1 = trace w @ evs0" by auto
  obtain r4 w4 where pa: "perform_all E (broker_calls A im) w3 = (r4, w4)"
    by (cases "perform_all E (broker_calls A im) w3")
  from perform_all_world [OF pa] obtain k where
    w4: "objects w4 = objects w3" "trace w4 = trace w3 @ take k (broker_calls A im)" by blast
  obtain tl where fin: "objects (final (upload_dataset E A w)) = objects w3"
                       "trace (final (upload_dataset E A w)) = trace w3 @ tl"
    using run pa w4 by (cases r4) (auto simp: announce_def)
  have objs: "objects (final (upload_dataset E A w)) = objects w @ ups"
    using fin(1) w3 ok(2) v1(1) w2 w1(1) by simp
  have tr: "new_calls w (upload_dataset E A w)
              = evs0 @ [MinioClient (endpoint A) (access_key A) (secret_key A)] @ evs1
                @ map put_call ups
                @ [Echo (''Successfully uploaded '' @ ?d @ '' to '' @ ?b @ '' on MinIO server.'')] @ tl"
    unfolding new_calls_def using fin(2) w3 ok(3) v1(2) w2 w1(2) by simp
  have corr: "list_all2 (uploaded_as ?d) fs ups"
  proof -
    have len: "length fs = length ups"
      using ok(1) ok(4) ok(5) by (auto dest!: list_all2_lengthD)
    moreover have "\<forall>i<length fs. uploaded_as ?d (fs ! i) (ups ! i)"
    proof (intro allI impI)
      fix i assume i: "i < length fs"
      with ok(1) ok(4) have "setitem (items ! i) ''bucket'' (JStr ?b) = Inr (fs ! i)"
        by (auto simp: list_all2_conv_all_nth)
      moreover from i len ok(5) have "prepared E ?d ?b (items ! i) (ups ! i)"
        by (auto simp: list_all2_conv_all_nth)
      ultimately show "uploaded_as ?d (fs ! i) (ups ! i)"
        using step_uploaded_as by blast
    qed
    ultimately show ?thesis by (simp add: list_all2_conv_all_nth)
  qed
  have bk: "\<forall>u\<in>set ups. fst u = ?b \<and> put_call u \<in> set (new_calls w (upload_dataset E A w))"
  proof
    fix u assume u: "u \<in> set ups"
    then obtain i where i: "i < length ups" "ups ! i = u" by (auto simp: in_set_conv_nth)
    with ok(5) have "prepared E ?d ?b (items ! i) u"
      by (auto simp: list_all2_conv_all_nth)
    then have "fst u = ?b" by (auto simp: prepared_def split: sum.splits)
    moreover have "put_call u \<in> set (new_calls w (upload_dataset E A w))"
      unfolding tr using u by simp
    ultimately show "fst u = ?b \<and> put_call u \<in> set (new_calls w (upload_dataset E A w))" ..
  qed
  have "getitem im ''files'' = Inr (JList fs)" unfolding im by simp
  with objs corr bk show ?thesis by blast
qed


text \<open>The example run, evaluated.\<close>

lemmas run_defs =
  upload_dataset_def load_and_validate_def fetch_def raise_for_status_def path_join_def
  resolve_bucket_def str_lower_def is_ascii_def lower_char_def perform_def emit_def ensure_bucket_def
  upload_block_def prepare_def announce_def broker_calls_def get_dataset_size_def Let_def

lemmas catset_defs =
  catset_env_def catset_args_def empty_world_def catset_metadata_def catset_records_def
  catset_tree_def catset_message_def

lemma catset_run:
  "upload_dataset catset_env catset_args empty_world =
     \<lparr>outcome = Returned, announced = Some catset_message,
      final = \<lparr>buckets = [''catset''],
               objects = [(''catset'', ''catset/cat1.jpg'', 1000),
                          (''catset'', ''catset/cat2.png'', 2000)],
               trace = [HttpGet ''http://localhost:8000/schema/animals'',
                        Echo ''Validated metadata file catset/metadata.json against the schema.'',
                        MinioClient ''localhost:9000'' ''minio'' ''minio123'',
                        BucketExists ''catset'', MakeBucket ''catset'',
                        Echo ''Bucket catset created on MinIO server.'',
                        PutObject ''catset'' ''catset/cat1.jpg'' 1000,
                        PutObject ''catset'' ''catset/cat2.png'' 2000,
                        Echo ''Successfully uploaded catset to catset on MinIO server.'',
                        BrokerConnect ''localhost'' ''5672'' ''guest'' ''guest'',
                        Channel, QueueDeclare ''metadata'' True,
                        BasicPublish [] ''metadata'' (Dumps catset_message) 2,
                        Echo ''Successfully sent metadata for catset to metadata on RabbitMQ server.'',
                        ConnectionClose]\<rparr>\<rparr>"
  by (simp add: run_defs catset_defs)

theorem message_files_uploaded_witness:
  "announced (upload_dataset catset_env catset_args empty_world) = Some catset_message
   \<and> (\<exists>fs ups. getitem catset_message ''files'' = Inr (JList fs)
           \<and> objects (final (upload_dataset catset_env catset_args empty_world))
               = objects empty_world @ ups
           \<and> list_all2 (uploaded_as (dir_path catset_args)) fs ups
           \<and> (\<forall>u\<in>set ups. fst u = resolve_bucket catset_env (bucket catset_args) (dir_path catset_args)
                  \<and> put_call u \<in> set (new_calls empty_world
                                         (upload_dataset catset_env catset_args empty_world))))"
proof -
  have h: "announced (upload_dataset catset_env catset_args empty_world) = Some catset_message"
    by (simp add: catset_run)
  from h message_files_uploaded [OF h] show ?thesis by blast
qed

section \<open>Runs in which nothing fails\<close>

lemma ensure_bucket_succeeds:
  assumes "\<forall>w c. is_storage c \<longrightarrow> raises E w c = None"
  shows "\<exists>w1. ensure_bucket E b w = (None, w1)"
  using assms by (simp add: ensure_bucket_def perform_def)

lemma upload_files_succeeds:
  assumes "\<forall>w c. is_storage c \<longrightarrow> raises E w c = None"
    and "\<forall>x\<in>set xs. \<exists>v. prepare E d x = Inr v"
  shows "\<exists>fmt' fs' w'. upload_files E d b xs fmt fs w = (Inr (fmt', fs'), w')"
  using assms(2)
proof (induction xs arbitrary: fmt fs w)
  case Nil
  then show ?case by simp
next
  case (Cons x xs)
  then obtain fp t n where p: "prepare E d x = Inr (fp, t, n)" by fastforce
  from prepare_dict [OF p] obtain kvs where x: "x = JObj kvs" by blast
  have r: "raises E w (PutObject b fp n) = None" using assms(1) by simp
  from Cons.prems have "\<forall>x\<in>set xs. \<exists>v. prepare E d x = Inr v" by simp
  from Cons.IH [OF this] show ?case using p x r by (simp add: perform_def)
qed

text \<open>
  When the metadata file holds a list, the schema is fetched and accepts it, no call to
  the store raises, every record passes lines 107 to 109 (it is a dict with a string
  \<^verbatim>\<open>image_path\<close>, a hashable \<^verbatim>\<open>image_type\<close> and a file that opens) and the walk of the
  directory succeeds, the run reaches the announcer.
\<close>

lemma reaches_announcer:
  assumes "path_exists E (path_join (dir_path A) (metadatafile A))"
    and "json_load E (path_join (dir_path A) (metadatafile A)) = Inr (JList recs)"
    and "fetch E (API E @ ''/'' @ dataclass A) = Inr res"
    and "json_body res = Inr schema"
    and "validate E (JList recs) schema = None"
    and "\<forall>w c. is_storage c \<longrightarrow> raises E w c = None"
    and "\<forall>x\<in>set recs. \<exists>v. prepare E (dir_path A) x = Inr v"
    and "walk E (dir_path A) = Inr tree"
  shows "\<exists>im. announced (upload_dataset E A w) = Some im"
proof -
  let ?b = "resolve_bucket E (bucket A) (dir_path A)"
  obtain w1 where lv: "load_and_validate E A w = (Inr (JList recs), w1)"
    using assms(1-5) by (simp add: load_and_validate_def)
  obtain w2 where mc:
    "perform E (MinioClient (endpoint A) (access_key A) (secret_key A)) w1 = (None, w2)"
    using assms(6) by (simp add: perform_def)
  from ensure_bucket_succeeds [OF assms(6)] obtain v1 where
    eb: "ensure_bucket E ?b w2 = (None, v1)" by blast
  from upload_files_succeeds [OF assms(6) assms(7)] obtain fmt fs v2 where
    uf: "upload_files E (dir_path A) ?b recs [] [] v1 = (Inr (fmt, fs), v2)" by blast
  from eb uf assms(8) obtain im w3 where
    ub: "upload_block E (dir_path A) ?b (JList recs) w2 = (Inr im, w3)"
    by (simp add: upload_block_def)
  from lv mc ub show ?thesis by (simp add: upload_dataset_def)
qed

section \<open>The files list against the metadata document\<close>

lemma filter_update_other:
  "filter (\<lambda>kv. fst kv \<noteq> k) (AList.update k v kvs) = filter (\<lambda>kv. fst kv \<noteq> k) kvs"
  by (induction kvs) auto

lemma filter_update_same:
  "distinct (map fst kvs) \<Longrightarrow> length (filter (\<lambda>kv. fst kv = k) (AList.update k v kvs)) = 1"
proof (induction kvs)
  case Nil
  then show ?case by simp
next
  case (Cons p ps)
  show ?case
  proof (cases "fst p = k")
    case True
    with Cons.prems have "k \<notin> fst ` set ps" by auto
    then have "filter (\<lambda>kv. fst kv = k) ps = []" by (auto simp: filter_empty_conv)
    with True show ?thesis by simp
  next
    case False
    with Cons show ?thesis by simp
  qed
qed

lemma augmented_update:
  "distinct (map fst kvs) \<Longrightarrow>
     augmented b (JObj kvs) (JObj (AList.update ''bucket'' (JStr b) kvs))"
  by (simp add: augmented_def filter_update_other filter_update_same update_conv')

text \<open>
  C2. When the metadata file holds a list of records (dicts, each key once) and the run
  reaches the announcer, which it does only if the document passed validation and no
  upload raised, the message's \<^verbatim>\<open>files\<close> list is as long as that list and its entries
  are, position by position, the records of the list with one \<^verbatim>\<open>bucket\<close> field set to
  the bucket name and every other field unchanged.
\<close>

theorem files_match_metadata:
  assumes "json_load E (path_join (dir_path A) (metadatafile A)) = Inr (JList recs)"
    and "list_all keys_distinct recs"
    and "announced (upload_dataset E A w) = Some im"
  shows "\<exists>fs. getitem im ''files'' = Inr (JList fs) \<and> length fs = length recs
           \<and> list_all2 (augmented (resolve_bucket E (bucket A) (dir_path A))) recs fs"
proof -
  let ?b = "resolve_bucket E (bucket A) (dir_path A)"
  let ?d = "dir_path A"
  from announced_SomeD [OF assms(3)] obtain md w1 w2 w3 where
    lv: "load_and_validate E A w = (Inr md, w1)" and
    ub: "upload_block E ?d ?b md w2 = (Inr im, w3)"
    by blast
  from load_and_validate_ok [OF lv] assms(1) have md: "md = JList recs" by simp
  from upload_block_ok [OF ub] obtain v1 items fmt fs v2 det where
    it: "iterate md = Inr items" and
    uf: "upload_files E ?d ?b items [] [] v1 = (Inr (fmt, fs), v2)" and
    im: "im = JObj [(''files'', JList fs), (''dataset_name'', JStr ?b), (''dataset_details'', det)]"
    by blast
  from it md have items: "items = recs" by simp
  from upload_files_ok [OF uf] obtain ys ups where
    ok: "fs = [] @ ys" "list_all2 (\<lambda>x y. setitem x ''bucket'' (JStr ?b) = Inr y) items ys"
    by blast
  have set: "list_all2 (\<lambda>x y. setitem x ''bucket'' (JStr ?b) = Inr y) recs fs"
    using ok items by simp
  have len: "length fs = length recs" using set by (auto dest: list_all2_lengthD)
  have "list_all2 (augmented ?b) recs fs"
    unfolding list_all2_conv_all_nth
  proof (intro conjI allI impI)
    show "length recs = length fs" using len by simp
  next
    fix i assume i: "i < length recs"
    with set have s: "setitem (recs ! i) ''bucket'' (JStr ?b) = Inr (fs ! i)"
      by (simp add: list_all2_conv_all_nth)
    then obtain kvs where kvs: "recs ! i = JObj kvs"
        "fs ! i = JObj (AList.update ''bucket'' (JStr ?b) kvs)"
      by (cases "recs ! i") auto
    from i assms(2) have "keys_distinct (recs ! i)" by (simp add: list_all_length)
    with kvs(1) have "distinct (map fst kvs)" by simp
    then show "augmented ?b (recs ! i) (fs ! i)" unfolding kvs by (rule augmented_update)
  qed
  moreover from set have "length fs = length recs" by (auto dest: list_all2_lengthD)
  moreover have "getitem im ''files'' = Inr (JList fs)" unfolding im by simp
  ultimately show ?thesis by blast
qed

theorem files_match_metadata_witness:
  "json_load catset_env (path_join (dir_path catset_args) (metadatafile catset_args))
     = Inr (JList catset_records)
   \<and> list_all keys_distinct catset_records
   \<and> announced (upload_dataset catset_env catset_args empty_world) = Some catset_message
   \<and> (\<exists>fs. getitem catset_message ''files'' = Inr (JList fs)
           \<and> length fs = length catset_records
           \<and> list_all2 (augmented (resolve_bucket catset_env (bucket catset_args) (dir_path catset_args)))
                 catset_records fs)"
proof -
  have h1: "json_load catset_env (path_join (dir_path catset_args) (metadatafile catset_args))
              = Inr (JList catset_records)"
    by (simp add: catset_env_def catset_args_def catset_metadata_def path_join_def)
  have h2: "list_all keys_distinct catset_records"
    by (simp add: catset_records_def)
  have h3: "announced (upload_dataset catset_env catset_args empty_world) = Some catset_message"
    by (simp add: catset_run)
  from files_match_metadata [OF h1 h2 h3] h1 h2 h3 show ?thesis by blast
qed

section \<open>The size of the data set\<close>

lemma sum_list_of_concat: "sum_list (concat xss) = sum_list (map sum_list xss)"
  by (induction xss) auto

lemma node_and_below:
  "sum_list (map st_size (filter is_file (c # glob_all c))) = tree_bytes c"
proof (induction c)
  case (RegFile n)
  then show ?case by simp
next
  case (Directory es)
  have "sum_list (map st_size (filter is_file (glob_all (Directory es))))
          = sum_list (map (\<lambda>c. sum_list (map st_size (filter is_file (c # glob_all c)))) (map snd es))"
    by (simp add: filter_concat map_concat sum_list_of_concat comp_def)
  also have "\<dots> = sum_list (map tree_bytes (map snd es))"
  proof -
    have "\<forall>c\<in>set (map snd es). sum_list (map st_size (filter is_file (c # glob_all c))) = tree_bytes c"
      using Directory.IH by force
    then show ?thesis by (simp cong: map_cong)
  qed
  finally show ?case by simp
next
  case Other
  then show ?case by simp
qed

lemma get_dataset_size_tree: "get_dataset_size tree = regular_file_bytes tree"
proof (cases tree)
  case (Directory es)
  have "get_dataset_size tree
          = sum_list (map st_size (filter is_file (tree # glob_all tree)))"
    unfolding Directory get_dataset_size_def by simp
  then show ?thesis using node_and_below [of tree] Directory
    by (simp add: regular_file_bytes_def)
qed (simp_all add: get_dataset_size_def regular_file_bytes_def)


text \<open>
  C4. When a run reaches the announcer, the \<^verbatim>\<open>size\<close> of \<^verbatim>\<open>dataset_details\<close> is the total
  of the byte sizes of the regular files in the tree that the walk of the directory
  finds. The total is a function of that tree alone: the metadata document does not
  occur in it, so it need not be the number of bytes uploaded.
\<close>

theorem dataset_size_from_walk:
  assumes "announced (upload_dataset E A w) = Some im"
  shows "\<exists>tree det. walk E (dir_path A) = Inr tree
           \<and> getitem im ''dataset_details'' = Inr det
           \<and> getitem det ''size'' = Inr (JInt (int (regular_file_bytes tree)))"
proof -
  from announced_SomeD [OF assms] obtain md w2 w3 where
    ub: "upload_block E (dir_path A) (resolve_bucket E (bucket A) (dir_path A)) md w2 = (Inr im, w3)"
    by blast
  from upload_block_ok [OF ub] obtain fmt fs tree where
    "walk E (dir_path A) = Inr tree"
    "im = JObj [(''files'', JList fs),
                (''dataset_name'', JStr (resolve_bucket E (bucket A) (dir_path A))),
                (''dataset_details'', JObj
                   [(''name'', JStr (dir_path A)),
                    (''bucket'', JStr (resolve_bucket E (bucket A) (dir_path A))),
                    (''date'', JStr (today E)),
                    (''size'', JInt (int (get_dataset_size tree))),
                    (''filetype'', JList (list_of_set E fmt))])]"
    by blast
  then show ?thesis by (simp add: get_dataset_size_tree)
qed

theorem dataset_size_from_walk_witness:
  "announced (upload_dataset catset_env catset_args empty_world) = Some catset_message
   \<and> (\<exists>tree det. walk catset_env (dir_path catset_args) = Inr tree
           \<and> getitem catset_message ''dataset_details'' = Inr det
           \<and> getitem det ''size'' = Inr (JInt (int (regular_file_bytes tree))))
   \<and> regular_file_bytes catset_tree = 3180
   \<and> sum_list (map (\<lambda>u. snd (snd u))
        (objects (final (upload_dataset catset_env catset_args empty_world)))) = 3000"
proof -
  have h: "announced (upload_dataset catset_env catset_args empty_world) = Some catset_message"
    by (simp add: catset_run)
  have "regular_file_bytes catset_tree = 3180"
    by (simp add: regular_file_bytes_def catset_tree_def)
  moreover have "sum_list (map (\<lambda>u. snd (snd u))
        (objects (final (upload_dataset catset_env catset_args empty_world)))) = 3000"
    by (simp add: catset_run)
  ultimately show ?thesis using h dataset_size_from_walk [OF h] by blast
qed

section \<open>Runs that stop before the upload\<close>

text \<open>
  C6. When the metadata file is not there, the run prints the \<open>does not exist\<close> message
  and returns: no exception leaves it, the message is the only call it issues (no HTTP
  request, no call to the store, no call to the broker), and the store is as it was.
\<close>

theorem missing_metadata_file:
  assumes "\<not> path_exists E (path_join (dir_path A) (metadatafile A))"
  shows "outcome (upload_dataset E A w) = Returned
     \<and> announced (upload_dataset E A w) = None
     \<and> new_calls w (upload_dataset E A w)
         = [Echo (''Error: metadata file '' @ path_join (dir_path A) (metadatafile A)
                  @ '' does not exist.'')]
     \<and> buckets (final (upload_dataset E A w)) = buckets w
     \<and> objects (final (upload_dataset E A w)) = objects w"
  using assms by (simp add: upload_dataset_def load_and_validate_def new_calls_def)

theorem missing_metadata_file_witness:
  "\<not> path_exists missing_env (path_join (dir_path catset_args) (metadatafile catset_args))
   \<and> outcome (upload_dataset missing_env catset_args empty_world) = Returned
   \<and> new_calls empty_world (upload_dataset missing_env catset_args empty_world)
       = [Echo ''Error: metadata file catset/metadata.json does not exist.'']"
proof -
  have h: "\<not> path_exists missing_env (path_join (dir_path catset_args) (metadatafile catset_args))"
    by (simp add: missing_env_def)
  from missing_metadata_file [OF h, of empty_world] h show ?thesis
    by (simp add: catset_args_def path_join_def)
qed

text \<open>
  C5. When the document fails validation against the fetched schema, the run prints
  the \<open>does not match the schema\<close> message and returns. Its only calls are the GET and
  that message: no storage client is made, no call reaches the store, and the buckets
  and objects of the store are as they were.
\<close>

theorem validation_failure_no_storage:
  assumes "path_exists E (path_join (dir_path A) (metadatafile A))"
    and "json_load E (path_join (dir_path A) (metadatafile A)) = Inr md"
    and "fetch E (API E @ ''/'' @ dataclass A) = Inr res"
    and "json_body res = Inr schema"
    and "validate E md schema = Some (ValidationError m)"
  shows "outcome (upload_dataset E A w) = Returned
     \<and> announced (upload_dataset E A w) = None
     \<and> new_calls w (upload_dataset E A w)
         = [HttpGet (API E @ ''/'' @ dataclass A),
            Echo (''Error: metadata file '' @ path_join (dir_path A) (metadatafile A)
                  @ '' does not match the schema.'')]
     \<and> list_all (\<lambda>c. \<not> is_storage c) (new_calls w (upload_dataset E A w))
     \<and> buckets (final (upload_dataset E A w)) = buckets w
     \<and> objects (final (upload_dataset E A w)) = objects w"
  using assms by (simp add: upload_dataset_def load_and_validate_def new_calls_def)

theorem validation_failure_no_storage_witness:
  "path_exists invalid_env (path_join (dir_path catset_args) (metadatafile catset_args))
   \<and> json_load invalid_env (path_join (dir_path catset_args) (metadatafile catset_args))
       = Inr catset_metadata
   \<and> fetch invalid_env (API invalid_env @ ''/'' @ dataclass catset_args)
       = Inr \<lparr>status_code = 200, json_body = Inr (JObj [(''type'', JStr ''array'')])\<rparr>
   \<and> validate invalid_env catset_metadata (JObj [(''type'', JStr ''array'')])
       = Some (ValidationError ''is not of type array'')
   \<and> outcome (upload_dataset invalid_env catset_args empty_world) = Returned
   \<and> new_calls empty_world (upload_dataset invalid_env catset_args empty_world)
       = [HttpGet ''http://localhost:8000/schema/animals'',
          Echo ''Error: metadata file catset/metadata.json does not match the schema.'']
   \<and> objects (final (upload_dataset invalid_env catset_args empty_world)) = []
   \<and> buckets (final (upload_dataset invalid_env catset_args empty_world)) = []"
proof -
  let ?res = "\<lparr>status_code = 200, json_body = Inr (JObj [(''type'', JStr ''array'')])\<rparr>"
  have h1: "path_exists invalid_env (path_join (dir_path catset_args) (metadatafile catset_args))"
    by (simp add: invalid_env_def catset_env_def catset_args_def path_join_def)
  have h2: "json_load invalid_env (path_join (dir_path catset_args) (metadatafile catset_args))
              = Inr catset_metadata"
    by (simp add: invalid_env_def catset_env_def catset_args_def path_join_def)
  have h3: "fetch invalid_env (API invalid_env @ ''/'' @ dataclass catset_args) = Inr ?res"
    by (simp add: invalid_env_def catset_env_def catset_args_def fetch_def raise_for_status_def)
  have h4: "json_body ?res = Inr (JObj [(''type'', JStr ''array'')])" by simp
  have h5: "validate invalid_env catset_metadata (JObj [(''type'', JStr ''array'')])
              = Some (ValidationError ''is not of type array'')"
    by (simp add: invalid_env_def)
  from validation_failure_no_storage [OF h1 h2 h3 h4 h5, of empty_world] h1 h2 h3 h5
  show ?thesis
    by (simp add: invalid_env_def catset_env_def catset_args_def path_join_def empty_world_def)
qed

section \<open>Failures in the upload block\<close>

lemma bucket_check_raises:
  "raises E w (BucketExists b) = Some e \<Longrightarrow>
     upload_block E d b md w = (Inl e, emit (BucketExists b) w)"
  by (simp add: upload_block_def ensure_bucket_def perform_def)

lemma bucket_creation_raises:
  "raises E w (BucketExists b) = None \<Longrightarrow> b \<notin> set (buckets w) \<Longrightarrow>
   raises E (emit (BucketExists b) w) (MakeBucket b) = Some e \<Longrightarrow>
     upload_block E d b md w = (Inl e, emit (MakeBucket b) (emit (BucketExists b) w))"
  by (simp add: upload_block_def ensure_bucket_def perform_def)

lemma file_upload_raises:
  "ensure_bucket E b w = (None, w1) \<Longrightarrow> iterate md = Inr items \<Longrightarrow>
   upload_files E d b items [] [] w1 = (Inl e, w2) \<Longrightarrow>
     upload_block E d b md w = (Inl e, w2)"
  by (simp add: upload_block_def)



section \<open>The announcer\<close>

lemma broker_calls_filtered: "filter is_broker (broker_calls A im) = broker_plan A im"
  by (simp add: broker_calls_def broker_plan_def)

lemma announce_world:
  "\<exists>k tl. trace (announce E A im w) = trace w @ take k (broker_calls A im) @ tl
       \<and> (\<forall>c\<in>set tl. \<not> is_broker c)
       \<and> ((\<forall>w' c. is_broker c \<longrightarrow> raises E w' c = None) \<longrightarrow> k = length (broker_calls A im))"
proof -
  obtain r w' where pa: "perform_all E (broker_calls A im) w = (r, w')"
    by (cases "perform_all E (broker_calls A im) w")
  from perform_all_world [OF pa] obtain k where
    k: "trace w' = trace w @ take k (broker_calls A im)" "r = None \<longrightarrow> k = length (broker_calls A im)"
    by blast
  have nr: "(\<forall>w' c. is_broker c \<longrightarrow> raises E w' c = None) \<longrightarrow> r = None"
  proof
    assume a: "\<forall>w' c. is_broker c \<longrightarrow> raises E w' c = None"
    have "\<forall>c\<in>set (broker_calls A im). is_broker c \<or> (\<exists>m. c = Echo m)"
      by (simp add: broker_calls_def)
    from perform_all_no_raise [OF a this, of w] pa show "r = None" by simp
  qed
  show ?thesis
  proof (cases r)
    case None
    with pa have "announce E A im w = w'" by (simp add: announce_def)
    with k nr None show ?thesis by (intro exI [of _ k] exI [of _ "[]"]) simp
  next
    case (Some e)
    with pa have a: "announce E A im w = emit (Echo ''Error sending metadata to RabbitMQ'') w'"
      by (simp add: announce_def)
    from nr Some have nn: "\<not> (\<forall>w' c. is_broker c \<longrightarrow> raises E w' c = None)" by auto
    have "trace (announce E A im w)
            = trace w @ take k (broker_calls A im) @ [Echo ''Error sending metadata to RabbitMQ'']"
      using a k(1) by simp
    moreover have "\<forall>c\<in>set [Echo ''Error sending metadata to RabbitMQ'']. \<not> is_broker c" by simp
    ultimately show ?thesis using nn by blast
  qed
qed

lemma broker_calls_prefix:
  assumes "announced (upload_dataset E A w) = Some im"
  shows "(\<exists>fs det. im = JObj [(''files'', JList fs),
                             (''dataset_name'', JStr (resolve_bucket E (bucket A) (dir_path A))),
                             (''dataset_details'', JObj det)])
     \<and> prefix (filter is_broker (new_calls w (upload_dataset E A w))) (broker_plan A im)
     \<and> ((\<forall>w' c. is_broker c \<longrightarrow> raises E w' c = None) \<longrightarrow>
           filter is_broker (new_calls w (upload_dataset E A w)) = broker_plan A im)"
proof -
  let ?r = "upload_dataset E A w"
  from announced_SomeD [OF assms] obtain md w1 w2 w3 where
    lv: "load_and_validate E A w = (Inr md, w1)" and
    mc: "perform E (MinioClient (endpoint A) (access_key A) (secret_key A)) w1 = (None, w2)" and
    ub: "upload_block E (dir_path A) (resolve_bucket E (bucket A) (dir_path A)) md w2 = (Inr im, w3)" and
    run: "?r = \<lparr>outcome = Returned, announced = Some im, final = announce E A im w3\<rparr>"
    by blast
  from load_and_validate_ok [OF lv] obtain evs0 where
    w1: "trace w1 = trace w @ evs0" "\<forall>c\<in>set evs0. \<not> is_broker c" by auto
  have w2: "w2 = emit (MinioClient (endpoint A) (access_key A) (secret_key A)) w1"
    using perform_world [OF mc] .
  from upload_block_world [OF ub] obtain evs where
    w3: "trace w3 = trace w2 @ evs" "\<forall>c\<in>set evs. \<not> is_broker c" by blast
  from announce_world [of E A im w3] obtain k tl where
    an: "trace (announce E A im w3) = trace w3 @ take k (broker_calls A im) @ tl"
        "\<forall>c\<in>set tl. \<not> is_broker c"
        "(\<forall>w' c. is_broker c \<longrightarrow> raises E w' c = None) \<longrightarrow> k = length (broker_calls A im)"
    by blast
  have tr: "new_calls w ?r = evs0 @ [MinioClient (endpoint A) (access_key A) (secret_key A)]
                        @ evs @ take k (broker_calls A im) @ tl"
    unfolding new_calls_def run using w1 w2 w3 an(1) by simp
  have none: "filter is_broker evs0 = []" "filter is_broker evs = []" "filter is_broker tl = []"
    using w1(2) w3(2) an(2) by (auto simp: filter_empty_conv)
  have sent: "filter is_broker (new_calls w ?r) = filter is_broker (take k (broker_calls A im))"
    unfolding tr using none by simp
  have "prefix (filter is_broker (new_calls w ?r)) (broker_plan A im)"
    unfolding sent using filter_mono_prefix [OF take_is_prefix, of is_broker k "broker_calls A im"]
    by (simp add: broker_calls_filtered)
  moreover have "(\<forall>w' c. is_broker c \<longrightarrow> raises E w' c = None) \<longrightarrow>
           filter is_broker (new_calls w ?r) = broker_plan A im"
    using an(3) sent by (auto simp: broker_calls_filtered)
  moreover from upload_block_ok [OF ub] have
    "\<exists>fs det. im = JObj [(''files'', JList fs),
                         (''dataset_name'', JStr (resolve_bucket E (bucket A) (dir_path A))),
                         (''dataset_details'', JObj det)]"
    by blast
  ultimately show ?thesis by blast
qed

lemma broker_calls_steps: "broker_calls A im = announcer_steps A im"
  by (simp add: broker_calls_def announcer_steps_def)

lemma raises_at_0:
  "raises_at E w (c # cs) 0 = (fst (perform E c w) \<noteq> None)"
  by (cases c) (simp_all add: raises_at_def perform_def)

lemma raises_at_Suc: "raises_at E w (c # cs) (Suc i) = raises_at E (emit c w) cs i"
  by (simp add: raises_at_def emit_def split: effect.split)

lemma perform_all_none:
  "\<forall>i<length cs. \<not> raises_at E w cs i \<Longrightarrow>
     perform_all E cs w = (None, w\<lparr>trace := trace w @ cs\<rparr>)"
proof (induction cs arbitrary: w)
  case Nil
  then show ?case by simp
next
  case (Cons c cs)
  from Cons.prems have "\<not> raises_at E w (c # cs) 0" by blast
  then have p: "perform E c w = (None, emit c w)"
    by (simp add: raises_at_0) (simp add: perform_def)
  have "\<forall>i<length cs. \<not> raises_at E (emit c w) cs i"
  proof (intro allI impI)
    fix i assume "i < length cs"
    with Cons.prems have "\<not> raises_at E w (c # cs) (Suc i)" by auto
    then show "\<not> raises_at E (emit c w) cs i" by (simp add: raises_at_Suc)
  qed
  from Cons.IH [OF this] p show ?case by (simp add: emit_def)
qed

lemma perform_all_first_raise:
  "k < length cs \<Longrightarrow> raises_at E w cs k \<Longrightarrow> \<forall>i<k. \<not> raises_at E w cs i \<Longrightarrow>
     \<exists>e. perform_all E cs w = (Some e, w\<lparr>trace := trace w @ take (Suc k) cs\<rparr>)"
proof (induction cs arbitrary: w k)
  case Nil
  then show ?case by simp
next
  case (Cons c cs)
  show ?case
  proof (cases k)
    case 0
    with Cons.prems(2) obtain e where "fst (perform E c w) = Some e"
      by (auto simp: raises_at_0)
    then have "perform E c w = (Some e, emit c w)" by (simp add: perform_def)
    with 0 show ?thesis by (simp add: emit_def)
  next
    case (Suc k')
    with Cons.prems(3) have "\<not> raises_at E w (c # cs) 0" by blast
    then have p: "perform E c w = (None, emit c w)"
      by (simp add: raises_at_0) (simp add: perform_def)
    from Suc Cons.prems have k': "k' < length cs" "raises_at E (emit c w) cs k'"
      by (simp_all add: raises_at_Suc)
    have "\<forall>i<k'. \<not> raises_at E (emit c w) cs i"
    proof (intro allI impI)
      fix i assume "i < k'"
      with Suc Cons.prems(3) have "\<not> raises_at E w (c # cs) (Suc i)" by auto
      then show "\<not> raises_at E (emit c w) cs i" by (simp add: raises_at_Suc)
    qed
    from Cons.IH [OF k' this] obtain e where
      "perform_all E cs (emit c w) = (Some e, (emit c w)\<lparr>trace := trace (emit c w) @ take (Suc k') cs\<rparr>)"
      by blast
    with p Suc show ?thesis by (simp add: emit_def)
  qed
qed

lemma announced_SomeI:
  assumes "load_and_validate E A w = (Inr md, w1)"
    and "perform E (MinioClient (endpoint A) (access_key A) (secret_key A)) w1 = (None, w2)"
    and "upload_block E (dir_path A) (resolve_bucket E (bucket A) (dir_path A)) md w2 = (Inr im, w3)"
  shows "upload_dataset E A w = \<lparr>outcome = Returned, announced = Some im, final = announce E A im w3\<rparr>"
  using assms by (simp add: upload_dataset_def)


text \<open>
  C9, amended. When the upload has succeeded, with \<open>w3\<close> the world at the end of the first
  \<^verbatim>\<open>try\<close>, the run returns and the message handed to the announcer is the dict of
  \<^verbatim>\<open>files\<close>, \<^verbatim>\<open>dataset_name\<close> and \<^verbatim>\<open>dataset_details\<close>, with \<^verbatim>\<open>dataset_name\<close> the bucket name.
  No call has gone to the broker so far, and the announcer leaves the store as it is.
  Its steps are: connect, open a channel, declare the queue with \<open>durable\<close> true, publish
  once to the default exchange with the queue as routing key, the serialised message as
  body and delivery mode 2, print the success message, close. When none of them raises,
  the run ends with exactly these calls. When step \<open>k\<close> is the first to raise, the run
  ends with the steps up to and including \<open>k\<close> followed by \<open>Error sending metadata to
  RabbitMQ\<close>: no later step is made. So the calls to the broker are an initial part of
  the five broker calls, all five when no call to the broker can raise; at most one
  message is published, and it is the message as the upload left it.
\<close>

theorem announcer_contract:
  assumes "load_and_validate E A w = (Inr md, w1)"
    and "perform E (MinioClient (endpoint A) (access_key A) (secret_key A)) w1 = (None, w2)"
    and "upload_block E (dir_path A) (resolve_bucket E (bucket A) (dir_path A)) md w2 = (Inr im, w3)"
  shows "announced (upload_dataset E A w) = Some im
     \<and> outcome (upload_dataset E A w) = Returned
     \<and> (\<exists>fs det. im = JObj [(''files'', JList fs),
                             (''dataset_name'', JStr (resolve_bucket E (bucket A) (dir_path A))),
                             (''dataset_details'', JObj det)])
     \<and> filter is_broker (drop (length (trace w)) (trace w3)) = []
     \<and> buckets (final (upload_dataset E A w)) = buckets w3
     \<and> objects (final (upload_dataset E A w)) = objects w3
     \<and> ((\<forall>i<length (announcer_steps A im). \<not> raises_at E w3 (announcer_steps A im) i) \<longrightarrow>
           trace (final (upload_dataset E A w)) = trace w3 @ announcer_steps A im)
     \<and> (\<forall>k<length (announcer_steps A im).
           raises_at E w3 (announcer_steps A im) k
           \<and> (\<forall>i<k. \<not> raises_at E w3 (announcer_steps A im) i) \<longrightarrow>
             trace (final (upload_dataset E A w))
               = trace w3 @ take (Suc k) (announcer_steps A im)
                 @ [Echo ''Error sending metadata to RabbitMQ''])
     \<and> prefix (filter is_broker (new_calls w (upload_dataset E A w))) (broker_plan A im)
     \<and> ((\<forall>w' c. is_broker c \<longrightarrow> raises E w' c = None) \<longrightarrow>
           filter is_broker (new_calls w (upload_dataset E A w)) = broker_plan A im)"
proof -
  let ?r = "upload_dataset E A w"
  let ?cs = "announcer_steps A im"
  have run: "?r = \<lparr>outcome = Returned, announced = Some im, final = announce E A im w3\<rparr>"
    using announced_SomeI [OF assms] .
  then have an: "announced ?r = Some im" and out: "outcome ?r = Returned" by simp_all
  have fin: "final ?r = announce E A im w3" using run by simp
  from load_and_validate_ok [OF assms(1)] obtain evs0 where
    w1: "trace w1 = trace w @ evs0" "\<forall>c\<in>set evs0. \<not> is_broker c" by auto
  have w2: "w2 = emit (MinioClient (endpoint A) (access_key A) (secret_key A)) w1"
    using perform_world [OF assms(2)] .
  from upload_block_world [OF assms(3)] obtain evs where
    w3: "trace w3 = trace w2 @ evs" "\<forall>c\<in>set evs. \<not> is_broker c" by blast
  have before: "filter is_broker (drop (length (trace w)) (trace w3)) = []"
    using w1 w2 w3 by (auto simp: filter_empty_conv)
  obtain r4 w4 where pa: "perform_all E ?cs w3 = (r4, w4)" by (cases "perform_all E ?cs w3")
  from perform_all_world [OF pa] have st: "objects w4 = objects w3" "buckets w4 = buckets w3"
    by simp_all
  have store: "buckets (final ?r) = buckets w3" "objects (final ?r) = objects w3"
    using fin pa st by (cases r4; simp add: announce_def broker_calls_steps)+
  have all: "(\<forall>i<length ?cs. \<not> raises_at E w3 ?cs i) \<longrightarrow> trace (final ?r) = trace w3 @ ?cs"
  proof
    assume "\<forall>i<length ?cs. \<not> raises_at E w3 ?cs i"
    from perform_all_none [OF this] show "trace (final ?r) = trace w3 @ ?cs"
      unfolding fin by (simp add: announce_def broker_calls_steps)
  qed
  have first: "\<forall>k<length ?cs. raises_at E w3 ?cs k \<and> (\<forall>i<k. \<not> raises_at E w3 ?cs i) \<longrightarrow>
      trace (final ?r) = trace w3 @ take (Suc k) ?cs @ [Echo ''Error sending metadata to RabbitMQ'']"
  proof (intro allI impI)
    fix k assume k: "k < length ?cs"
      and "raises_at E w3 ?cs k \<and> (\<forall>i<k. \<not> raises_at E w3 ?cs i)"
    then have "raises_at E w3 ?cs k" "\<forall>i<k. \<not> raises_at E w3 ?cs i" by simp_all
    from perform_all_first_raise [OF k this] obtain e where
      "perform_all E ?cs w3 = (Some e, w3\<lparr>trace := trace w3 @ take (Suc k) ?cs\<rparr>)" by blast
    then show "trace (final ?r)
                 = trace w3 @ take (Suc k) ?cs @ [Echo ''Error sending metadata to RabbitMQ'']"
      unfolding fin by (simp add: announce_def broker_calls_steps)
  qed
  from broker_calls_prefix [OF an] before store all first an out show ?thesis by blast
qed

theorem announcer_contract_witness:
  "announced (upload_dataset catset_env catset_args empty_world) = Some catset_message
   \<and> raises_at catset_env catset_uploaded (announcer_steps catset_args catset_message) 3 = False
   \<and> trace (final (upload_dataset catset_env catset_args empty_world))
       = trace catset_uploaded
         @ [BrokerConnect ''localhost'' ''5672'' ''guest'' ''guest'', Channel,
            QueueDeclare ''metadata'' True,
            BasicPublish [] ''metadata'' (Dumps catset_message) 2,
            Echo ''Successfully sent metadata for catset to metadata on RabbitMQ server.'',
            ConnectionClose]
   \<and> announced (upload_dataset broker_down_env catset_args empty_world) = Some catset_message
   \<and> raises_at broker_down_env catset_uploaded (announcer_steps catset_args catset_message) 0
   \<and> trace (final (upload_dataset broker_down_env catset_args empty_world))
       = trace catset_uploaded
         @ [BrokerConnect ''localhost'' ''5672'' ''guest'' ''guest'',
            Echo ''Error sending metadata to RabbitMQ'']"
proof -
  let ?A = catset_args
  let ?cs = "announcer_steps catset_args catset_message"
  let ?w2 = "emit (MinioClient ''localhost:9000'' ''minio'' ''minio123'') catset_validated"
  have a1: "load_and_validate catset_env ?A empty_world = (Inr catset_metadata, catset_validated)"
    by (simp add: run_defs catset_defs catset_validated_def)
  have a2: "perform catset_env (MinioClient (endpoint ?A) (access_key ?A) (secret_key ?A))
              catset_validated = (None, ?w2)"
    by (simp add: perform_def catset_env_def catset_args_def)
  have a3: "upload_block catset_env (dir_path ?A) (resolve_bucket catset_env (bucket ?A) (dir_path ?A))
              catset_metadata ?w2 = (Inr catset_message, catset_uploaded)"
    by (simp add: run_defs catset_defs catset_validated_def catset_uploaded_def)
  have b1: "load_and_validate broker_down_env ?A empty_world = (Inr catset_metadata, catset_validated)"
    by (simp add: run_defs catset_defs catset_validated_def broker_down_env_def)
  have b2: "perform broker_down_env (MinioClient (endpoint ?A) (access_key ?A) (secret_key ?A))
              catset_validated = (None, ?w2)"
    by (simp add: perform_def catset_env_def catset_args_def broker_down_env_def)
  have b3: "upload_block broker_down_env (dir_path ?A)
              (resolve_bucket broker_down_env (bucket ?A) (dir_path ?A))
              catset_metadata ?w2 = (Inr catset_message, catset_uploaded)"
    by (simp add: run_defs catset_defs catset_validated_def catset_uploaded_def broker_down_env_def)
  have len: "length ?cs = 6" by (simp add: announcer_steps_def)
  have quiet: "\<forall>i<length ?cs. \<not> raises_at catset_env catset_uploaded ?cs i"
    by (simp add: raises_at_def catset_env_def split: effect.split)
  have down: "raises_at broker_down_env catset_uploaded ?cs 0"
    by (simp add: raises_at_def announcer_steps_def broker_down_env_def catset_args_def)
  have steps: "?cs = [BrokerConnect ''localhost'' ''5672'' ''guest'' ''guest'', Channel,
            QueueDeclare ''metadata'' True,
            BasicPublish [] ''metadata'' (Dumps catset_message) 2,
            Echo ''Successfully sent metadata for catset to metadata on RabbitMQ server.'',
            ConnectionClose]"
    by (simp add: announcer_steps_def catset_args_def)
  note ok = announcer_contract [OF a1 a2 a3]
  note ko = announcer_contract [OF b1 b2 b3]
  from ok have ok1: "announced (upload_dataset catset_env ?A empty_world) = Some catset_message"
    by blast
  from ok quiet have ok2: "trace (final (upload_dataset catset_env ?A empty_world))
                             = trace catset_uploaded @ ?cs"
    by blast
  from ko have ko1: "announced (upload_dataset broker_down_env ?A empty_world) = Some catset_message"
    by blast
  from ko have "\<forall>k<length ?cs. raises_at broker_down_env catset_uploaded ?cs k
           \<and> (\<forall>i<k. \<not> raises_at broker_down_env catset_uploaded ?cs i) \<longrightarrow>
             trace (final (upload_dataset broker_down_env ?A empty_world))
               = trace catset_uploaded @ take (Suc k) ?cs @ [Echo ''Error sending metadata to RabbitMQ'']"
    by blast
  then have "0 < length ?cs \<longrightarrow> raises_at broker_down_env catset_uploaded ?cs 0
           \<and> (\<forall>i<0. \<not> raises_at broker_down_env catset_uploaded ?cs i) \<longrightarrow>
             trace (final (upload_dataset broker_down_env ?A empty_world))
               = trace catset_uploaded @ take (Suc 0) ?cs @ [Echo ''Error sending metadata to RabbitMQ'']"
    by blast
  with down len have ko2: "trace (final (upload_dataset broker_down_env ?A empty_world))
               = trace catset_uploaded @ take (Suc 0) ?cs @ [Echo ''Error sending metadata to RabbitMQ'']"
    by simp
  from quiet len have q3: "raises_at catset_env catset_uploaded ?cs 3 = False" by simp
  show ?thesis using ok1 ok2 ko1 ko2 down q3 unfolding steps by simp
qed

text \<open>
  C9, as it is worded, at a broker that refuses the connection: the upload succeeds all
  the same, the only call to the broker is the attempt to connect, no queue is declared
  and no message is published. The run reports \<open>Error sending metadata\<close> and returns.
\<close>

theorem broker_down_nothing_published:
  "announced (upload_dataset broker_down_env catset_args empty_world) = Some catset_message
   \<and> objects (final (upload_dataset broker_down_env catset_args empty_world))
       = [(''catset'', ''catset/cat1.jpg'', 1000), (''catset'', ''catset/cat2.png'', 2000)]
   \<and> filter is_broker (new_calls empty_world (upload_dataset broker_down_env catset_args empty_world))
       = [BrokerConnect ''localhost'' ''5672'' ''guest'' ''guest'']
   \<and> filter is_publish (new_calls empty_world (upload_dataset broker_down_env catset_args empty_world))
       = []
   \<and> filter is_broker (new_calls empty_world (upload_dataset broker_down_env catset_args empty_world))
       \<noteq> broker_plan catset_args catset_message
   \<and> last (trace (final (upload_dataset broker_down_env catset_args empty_world)))
       = Echo ''Error sending metadata to RabbitMQ''"
  by (simp add: run_defs catset_defs broker_down_env_def new_calls_def broker_plan_def)

section \<open>The schema fetch\<close>

text \<open>
  The GET goes to \<open>API/dataclass\<close>. A connection error, and a response whose status is
  a client or a server error (400 to 599), end the run with their message before any
  validation or upload: the GET and the message are the run's only calls.
\<close>

lemma connection_failure_aborts:
  assumes "path_exists E (path_join (dir_path A) (metadatafile A))"
    and "json_load E (path_join (dir_path A) (metadatafile A)) = Inr md"
    and "requests_get E (API E @ ''/'' @ dataclass A) = Inl (ConnectionError m)"
  shows "upload_dataset E A w =
           \<lparr>outcome = Returned, announced = None,
            final = emit (Echo ''Error: Failed to connect to server.'')
                      (emit (HttpGet (API E @ ''/'' @ dataclass A)) w)\<rparr>"
  using assms by (simp add: upload_dataset_def load_and_validate_def fetch_def)

lemma error_status_aborts:
  assumes "path_exists E (path_join (dir_path A) (metadatafile A))"
    and "json_load E (path_join (dir_path A) (metadatafile A)) = Inr md"
    and "requests_get E (API E @ ''/'' @ dataclass A) = Inr res"
    and "400 \<le> status_code res" and "status_code res < 600"
  shows "upload_dataset E A w =
           \<lparr>outcome = Returned, announced = None,
            final = emit (Echo (''Error: Cannot retrieve schema for dataclass '' @ dataclass A
                                @ '' from the database.''))
                      (emit (HttpGet (API E @ ''/'' @ dataclass A)) w)\<rparr>"
  using assms
  by (simp add: upload_dataset_def load_and_validate_def fetch_def raise_for_status_def)

text \<open>
  C8, where the code departs from it. The status check raises for 400 to 599 only. A
  response outside 200 to 299 that is not in that range, here 300 with a JSON body,
  raises nothing: the run does not print \<open>Cannot retrieve schema\<close>, it takes the body for
  the schema, validates, uploads both files and publishes, exactly as it does after a
  200.
\<close>

theorem status_300_taken_as_success:
  "fetch choices_env (API choices_env @ ''/'' @ dataclass catset_args)
     = Inr \<lparr>status_code = 300, json_body = Inr (JObj [])\<rparr>
   \<and> Echo ''Error: Cannot retrieve schema for dataclass animals from the database.''
       \<notin> set (new_calls empty_world (upload_dataset choices_env catset_args empty_world))
   \<and> outcome (upload_dataset choices_env catset_args empty_world) = Returned
   \<and> announced (upload_dataset choices_env catset_args empty_world) = Some catset_message
   \<and> objects (final (upload_dataset choices_env catset_args empty_world))
       = [(''catset'', ''catset/cat1.jpg'', 1000), (''catset'', ''catset/cat2.png'', 2000)]
   \<and> upload_dataset choices_env catset_args empty_world
       = upload_dataset catset_env catset_args empty_world"
proof -
  have f: "fetch choices_env (API choices_env @ ''/'' @ dataclass catset_args)
             = Inr \<lparr>status_code = 300, json_body = Inr (JObj [])\<rparr>"
    by (simp add: choices_env_def fetch_def raise_for_status_def)
  have r: "upload_dataset choices_env catset_args empty_world
             = upload_dataset catset_env catset_args empty_world"
    unfolding catset_run by (simp add: run_defs catset_defs choices_env_def)
  show ?thesis using f unfolding r catset_run by (simp add: new_calls_def empty_world_def)
qed

end
